theory Spec2Isabelle
  imports Main "HOL-Library.Word" "HOL-Library.Sublist" "HOL-Library.AList" "HOL-Library.Multiset"
begin

section \<open>JavaScript strings\<close>

text \<open>
  A JavaScript string is a sequence of 16-bit UTF-16 code units, so a player name with
  arbitrary Unicode content is a list of 16-bit words. ASCII literals of the source are
  written with \<open>lit\<close>.
\<close>

type_synonym jschar = "16 word"
type_synonym jsstring = "jschar list"

definition lit :: "string \<Rightarrow> jsstring" where
  "lit s = map of_char s"

text \<open>
  \<open>String.prototype.trim\<close> removes the longest prefix and the longest suffix made of
  WhiteSpace and LineTerminator code points (ECMAScript, TrimString). All of them lie in
  the Basic Multilingual Plane, so the test is one on single code units: TAB, LF, VT, FF,
  CR, SP, NBSP, U+1680, U+2000 to U+200A, LS, PS, U+202F, U+205F, U+3000 and U+FEFF.
\<close>

definition is_ws :: "jschar \<Rightarrow> bool" where
  "is_ws c \<longleftrightarrow>
     c \<in> {0x9, 0xA, 0xB, 0xC, 0xD, 0x20, 0xA0, 0x1680, 0x2028, 0x2029, 0x202F, 0x205F,
          0x3000, 0xFEFF}
     \<or> (0x2000 \<le> c \<and> c \<le> 0x200A)"

definition trim :: "jsstring \<Rightarrow> jsstring" where
  "trim s = rev (dropWhile is_ws (rev (dropWhile is_ws s)))"

text \<open>
  \<open>s.split(sep)\<close> for a non-empty separator string: scan from the left; at every
  position where \<open>sep\<close> occurs, close the current part and continue after the
  occurrence; the rest of the string is the last part. The result always has at least
  one part. (With an empty separator JavaScript splits into code units; the program only
  splits on \<open>' vs '\<close>, and the model returns the whole string as one part there.)
\<close>

function split_loop :: "jsstring \<Rightarrow> jsstring \<Rightarrow> jsstring \<Rightarrow> jsstring list" where
  "split_loop sep part [] = [part]"
| "split_loop sep part (c # cs) =
     (if sep \<noteq> [] \<and> prefix sep (c # cs)
      then part # split_loop sep [] (drop (length sep) (c # cs))
      else split_loop sep (part @ [c]) cs)"
  by pat_completeness auto
termination
  by (relation "measure (\<lambda>(sep, part, s). length s)") auto

definition split :: "jsstring \<Rightarrow> jsstring \<Rightarrow> jsstring list" where
  "split s sep = split_loop sep [] s"

text \<open>
  Number-to-string conversion of a non-negative integer below \<open>10^21\<close> is its decimal
  representation; array positions are far below that bound.
\<close>

fun decimal :: "nat \<Rightarrow> jsstring" where
  "decimal n =
     (if n < 10 then [of_nat (48 + n)] else decimal (n div 10) @ [of_nat (48 + n mod 10)])"

text \<open>
  Reading an array position that does not exist gives \<open>undefined\<close>, modelled by \<open>None\<close>.
\<close>

fun at :: "'a list \<Rightarrow> nat \<Rightarrow> 'a option" where
  "at [] i = None"
| "at (x # xs) 0 = Some x"
| "at (x # xs) (Suc i) = at xs i"

section \<open>Win detection\<close>

text \<open>
  A board is an array of \<open>string | null\<close>. A cell is truthy when it is a non-empty
  string; \<open>null\<close>, \<open>undefined\<close> and the empty string are falsy.
\<close>

datatype cell = Null | Str jsstring

fun truthy :: "cell option \<Rightarrow> bool" where
  "truthy (Some (Str s)) = (s \<noteq> [])"
| "truthy _ = False"

definition lines :: "(nat \<times> nat \<times> nat) list" where
  "lines = [(0, 1, 2), (3, 4, 5), (6, 7, 8), (0, 3, 6), (1, 4, 7), (2, 5, 8), (0, 4, 8), (2, 4, 6)]"

text \<open>
  The \<open>for\<close> loop of \<open>calculateWinner\<close> over the remaining lines: the first line whose
  three cells are truthy and strictly equal ends the loop with the symbol and the line.
\<close>

definition line_test :: "cell list \<Rightarrow> nat \<Rightarrow> nat \<Rightarrow> nat \<Rightarrow> bool" where
  "line_test b a b1 c \<longleftrightarrow> truthy (at b a) \<and> at b a = at b b1 \<and> at b a = at b c"

fun calculateWinner_loop ::
  "cell list \<Rightarrow> (nat \<times> nat \<times> nat) list \<Rightarrow> (jsstring \<times> nat list) option" where
  "calculateWinner_loop b [] = None"
| "calculateWinner_loop b ((a, b1, c) # rest) =
     (if line_test b a b1 c
      then (case at b a of
              Some (Str s) \<Rightarrow> Some (s, [a, b1, c])
            | _ \<Rightarrow> calculateWinner_loop b rest)
      else calculateWinner_loop b rest)"

definition calculateWinner :: "cell list \<Rightarrow> (jsstring \<times> nat list) option" where
  "calculateWinner b = calculateWinner_loop b lines"

text \<open>
  The boards of the specification: nine cells, each empty, X or O; and what it means
  for a line of such a board to be completed.
\<close>

definition board_ok :: "cell list \<Rightarrow> bool" where
  "board_ok b \<longleftrightarrow>
     length b = 9 \<and> (\<forall>c \<in> set b. c = Null \<or> c = Str (lit ''X'') \<or> c = Str (lit ''O''))"

definition line_complete :: "cell list \<Rightarrow> nat \<times> nat \<times> nat \<Rightarrow> bool" where
  "line_complete b l = (case l of (a, b1, c) \<Rightarrow> b ! a \<noteq> Null \<and> b ! b1 = b ! a \<and> b ! c = b ! a)"

definition triple :: "nat \<times> nat \<times> nat \<Rightarrow> nat list" where
  "triple l = (case l of (a, b1, c) \<Rightarrow> [a, b1, c])"

section \<open>Game records\<close>

text \<open>
  A stored game record, as \<open>saveGame\<close> builds it and \<open>JSON.parse\<close> returns it:
  the board at game end, the result text, the two player names and the timestamp
  (\<open>Date.now()\<close>, an integer number of milliseconds). The history screen adds the
  field \<open>gameNumber\<close> to the records it displays. The fields \<open>X\<close> and \<open>O\<close> of
  \<open>players\<close> are called \<open>nameX\<close> and \<open>nameO\<close> here, \<open>O\<close> being relation
  composition in HOL.
\<close>

record players =
  nameX :: jsstring
  nameO :: jsstring

record game =
  board :: "cell list"
  result :: jsstring
  players :: players
  timestamp :: int

record numbered_game = game +
  gameNumber :: jsstring

text \<open>
  Failures as values. The first four are the alerts of the screens (\<open>'Title cannot be
  empty'\<close>, \<open>'Cannot have duplicate titles'\<close>, \<open>'Title must follow format "PlayerX vs
  PlayerO"'\<close>, and the \<open>'Failed to ...'\<close> alerts of the \<open>catch\<close> blocks around
  AsyncStorage); \<open>TypeError\<close> is the runtime error of reading a property of
  \<open>undefined\<close>; \<open>EnterBothNames\<close> and \<open>SelectFirstPlayer\<close> are the alerts of the
  name entry screen.
\<close>

datatype error =
  EmptyTitleError | DuplicateTitleError | MalformedTitleError | IOError | TypeError
  | EnterBothNames | SelectFirstPlayer

section \<open>JavaScript objects used as dictionaries\<close>

text \<open>
  An object with string keys is the list of its own properties in creation order.
  Writing a property (\<open>AList.update\<close>) replaces the value of an existing key in place and
  appends a new key at the end; an object literal writes its properties from left to
  right. \<open>Object.entries\<close> lists the keys that are array indices (canonical decimal
  numerals below \<open>2^32 - 1\<close>) first, in ascending numeric order, and then all other
  keys in creation order.
\<close>

definition object_literal :: "(jsstring \<times> 'v) list \<Rightarrow> (jsstring \<times> 'v) list" where
  "object_literal props = foldl (\<lambda>obj p. AList.update (fst p) (snd p) obj) [] props"

definition is_digit :: "jschar \<Rightarrow> bool" where
  "is_digit c \<longleftrightarrow> 0x30 \<le> c \<and> c \<le> 0x39"

definition index_value :: "jsstring \<Rightarrow> nat" where
  "index_value s = foldl (\<lambda>n c. 10 * n + (unat c - 48)) 0 s"

definition is_array_index :: "jsstring \<Rightarrow> bool" where
  "is_array_index s \<longleftrightarrow>
     s \<noteq> [] \<and> list_all is_digit s \<and> (length s = 1 \<or> take 1 s \<noteq> [0x30])
     \<and> index_value s < 2 ^ 32 - 1"

definition Object_entries :: "(jsstring \<times> 'v) list \<Rightarrow> (jsstring \<times> 'v) list" where
  "Object_entries obj =
     sort_key (\<lambda>p. index_value (fst p)) (filter (\<lambda>p. is_array_index (fst p)) obj)
     @ filter (\<lambda>p. \<not> is_array_index (fst p)) obj"

section \<open>The history screen: grouping\<close>

definition sep :: jsstring where
  "sep = lit '' vs ''"

text \<open>
  The \<open>for\<close> loop of \<open>groupGamesByPlayers\<close> over the games still to visit.
  \<open>groups[key]\<close> is falsy exactly when the key is absent: an array is truthy even when
  empty, and no inherited property of an object has a name of the form
  \<open>X vs O\<close>. \<open>groups[key].push\<close> on an absent key would raise a TypeError.
\<close>

fun groupGames_loop ::
  "(jsstring \<times> game list) list \<Rightarrow> game list \<Rightarrow> error + (jsstring \<times> game list) list" where
  "groupGames_loop groups [] = Inr groups"
| "groupGames_loop groups (game # rest) =
     (let Xn = trim (nameX (players game));
          On = trim (nameO (players game));
          key = Xn @ sep @ On;
          groups1 = (if map_of groups key = None then AList.update key [] groups else groups)
      in case map_of groups1 key of
           None \<Rightarrow> Inl TypeError
         | Some arr \<Rightarrow>
             groupGames_loop
               (AList.update key (arr @ [game\<lparr>players := \<lparr>nameX = Xn, nameO = On\<rparr>\<rparr>]) groups1) rest)"

text \<open>
  The callback of \<open>data.map\<close>: it counts the record in one of the three counters
  \<open>(xWins, oWins, draws)\<close> and returns the record with its \<open>gameNumber\<close>, the text
  \<open>Game\<close> followed by the 1-based position.
\<close>

fun count_result :: "game \<Rightarrow> nat \<times> nat \<times> nat \<Rightarrow> nat \<times> nat \<times> nat" where
  "count_result game (xWins, oWins, draws) =
     (if result game = nameX (players game) @ lit '' wins'' then (xWins + 1, oWins, draws)
      else if result game = nameO (players game) @ lit '' wins'' then (xWins, oWins + 1, draws)
      else (xWins, oWins, draws + 1))"

definition with_gameNumber :: "game \<Rightarrow> nat \<Rightarrow> numbered_game" where
  "with_gameNumber game index =
     \<lparr>board = board game, result = result game, players = players game,
      timestamp = timestamp game, gameNumber = lit ''Game '' @ decimal (index + 1)\<rparr>"

fun numberedData_loop ::
  "nat \<Rightarrow> game list \<Rightarrow> nat \<times> nat \<times> nat \<Rightarrow> numbered_game list \<times> (nat \<times> nat \<times> nat)" where
  "numberedData_loop index [] counters = ([], counters)"
| "numberedData_loop index (game # rest) counters =
     (case numberedData_loop (index + 1) rest (count_result game counters) of
        (numbered, counters') \<Rightarrow> (with_gameNumber game index # numbered, counters'))"

record pairing_group =
  title :: jsstring
  data :: "numbered_game list"
  stats :: "(jsstring \<times> nat) list"

text \<open>
  The callback of \<open>Object.entries(groups).map\<close>, with the entry \<open>[title, data]\<close>
  bound to \<open>(key, records)\<close>. \<open>data[0].players\<close> raises a TypeError when the group
  has no record.
\<close>

definition group_of_entry :: "jsstring \<times> game list \<Rightarrow> error + pairing_group" where
  "group_of_entry entry =
     (case entry of (key, records) \<Rightarrow>
        (case numberedData_loop 0 records (0, 0, 0) of
           (numberedData, (xWins, oWins, draws)) \<Rightarrow>
             (case records of
                [] \<Rightarrow> Inl TypeError
              | first # _ \<Rightarrow>
                  Inr \<lparr>title = key, data = numberedData,
                       stats = object_literal
                         [(nameX (players first), xWins), (nameO (players first), oWins),
                          (lit ''Draws'', draws)]\<rparr>)))"

fun map_result :: "('a \<Rightarrow> error + 'b) \<Rightarrow> 'a list \<Rightarrow> error + 'b list" where
  "map_result f [] = Inr []"
| "map_result f (x # xs) =
     (case f x of
        Inl e \<Rightarrow> Inl e
      | Inr y \<Rightarrow> (case map_result f xs of Inl e \<Rightarrow> Inl e | Inr ys \<Rightarrow> Inr (y # ys)))"

definition groupGamesByPlayers :: "game list \<Rightarrow> error + pairing_group list" where
  "groupGamesByPlayers games =
     (case groupGames_loop [] games of
        Inl e \<Rightarrow> Inl e
      | Inr groups \<Rightarrow> map_result group_of_entry (Object_entries groups))"

section \<open>The history screen: state, renaming and deleting\<close>

text \<open>
  The state of the history screen, and the item stored under \<open>STORAGE_KEY\<close> as
  \<open>JSON.parse\<close> reads it back (\<open>None\<close> when the key is absent). A write to AsyncStorage
  can be rejected; whether it succeeds is an input of each handler.
\<close>

record history_state =
  games :: "game list"
  editingTitle :: "jsstring option"
  editedTitleText :: jsstring
  storage :: "game list option"

text \<open>A destructured part that is \<open>undefined\<close> or the empty string is falsy.\<close>

fun falsy :: "jsstring option \<Rightarrow> bool" where
  "falsy None = True"
| "falsy (Some s) = (s = [])"

text \<open>The \<open>games.map\<close> of \<open>handleSaveEditTitle\<close>, for the four destructured names.\<close>

definition rename_matches :: "jsstring option \<Rightarrow> jsstring option \<Rightarrow> game \<Rightarrow> bool" where
  "rename_matches xNameOld oNameOld game \<longleftrightarrow>
     Some (trim (nameX (players game))) = xNameOld \<and> Some (trim (nameO (players game))) = oNameOld"

definition updatedGames ::
  "jsstring option \<Rightarrow> jsstring option \<Rightarrow> jsstring \<Rightarrow> jsstring \<Rightarrow> game list \<Rightarrow> game list" where
  "updatedGames xNameOld oNameOld xNameNew oNameNew gs =
     map (\<lambda>game. if rename_matches xNameOld oNameOld game
                  then game\<lparr>players := \<lparr>nameX = trim xNameNew, nameO = trim oNameNew\<rparr>\<rparr>
                  else game) gs"

definition handleSaveEditTitle ::
  "bool \<Rightarrow> jsstring \<Rightarrow> history_state \<Rightarrow> error option \<times> history_state" where
  "handleSaveEditTitle write_ok oldTitle st =
     (let trimmedNew = trim (editedTitleText st) in
      if trimmedNew = [] then (Some EmptyTitleError, st)
      else
        (case groupGamesByPlayers (games st) of
           Inl e \<Rightarrow> (Some e, st)
         | Inr groups \<Rightarrow>
             if list_ex (\<lambda>group. title group = trimmedNew \<and> title group \<noteq> oldTitle) groups
             then (Some DuplicateTitleError, st)
             else
               (let xNameOld = at (split oldTitle sep) 0;
                    oNameOld = at (split oldTitle sep) 1;
                    xNameNew = at (split trimmedNew sep) 0;
                    oNameNew = at (split trimmedNew sep) 1
                in if falsy xNameNew \<or> falsy oNameNew then (Some MalformedTitleError, st)
                   else
                     (case (xNameNew, oNameNew) of
                        (Some xn, Some on) \<Rightarrow>
                          (let updated = updatedGames xNameOld oNameOld xn on (games st)
                           in if write_ok
                              then (None, st\<lparr>games := updated, editingTitle := None,
                                            editedTitleText := [], storage := Some updated\<rparr>)
                              else (Some IOError, st))
                      | _ \<Rightarrow> (Some MalformedTitleError, st)))))"

definition handleDeleteGame ::
  "bool \<Rightarrow> int \<Rightarrow> history_state \<Rightarrow> error option \<times> history_state" where
  "handleDeleteGame write_ok ts st =
     (let filtered = filter (\<lambda>g. timestamp g \<noteq> ts) (games st)
      in if write_ok then (None, st\<lparr>games := filtered, storage := Some filtered\<rparr>)
         else (Some IOError, st))"

definition handleDeleteAll :: "bool \<Rightarrow> history_state \<Rightarrow> error option \<times> history_state" where
  "handleDeleteAll write_ok st =
     (if write_ok then (None, st\<lparr>games := [], storage := None\<rparr>) else (Some IOError, st))"

section \<open>The name entry and game screens: saving a game\<close>

text \<open>
  The repository holds two versions of the application. In the first, \<open>startGame\<close>
  passes the trimmed names to the game screen and \<open>saveGame\<close> trims them again before
  building the record.
\<close>

datatype symbol = SymX | SymO

definition startGame ::
  "jsstring \<Rightarrow> jsstring \<Rightarrow> symbol option \<Rightarrow> error + (jsstring \<times> jsstring \<times> symbol)" where
  "startGame playerX playerO firstPlayer =
     (let trimmedX = trim playerX; trimmedO = trim playerO in
      if trimmedX = [] \<or> trimmedO = [] then Inl EnterBothNames
      else (case firstPlayer of
              None \<Rightarrow> Inl SelectFirstPlayer
            | Some p \<Rightarrow> Inr (trimmedX, trimmedO, p)))"

definition saveGame ::
  "bool \<Rightarrow> jsstring \<Rightarrow> jsstring \<Rightarrow> int \<Rightarrow> cell list \<Rightarrow> jsstring \<Rightarrow> game list option
     \<Rightarrow> error option \<times> game list option" where
  "saveGame io_ok playerX playerO now boardState res store =
     (let trimmedX = trim playerX;
          trimmedO = trim playerO;
          game = \<lparr>board = boardState, result = res,
                  players = \<lparr>nameX = trimmedX, nameO = trimmedO\<rparr>, timestamp = now\<rparr>
      in if io_ok
         then (None, Some (game # (case store of None \<Rightarrow> [] | Some gs \<Rightarrow> gs)))
         else (Some IOError, store))"

text \<open>
  The second version, in \<open>app/(tabs)/index.tsx\<close>: \<open>startGame\<close> tests the trimmed names
  but passes the names as typed, and \<open>saveGame\<close> stores them as they are.
\<close>

definition startGame_index :: "jsstring \<Rightarrow> jsstring \<Rightarrow> error + (jsstring \<times> jsstring)" where
  "startGame_index playerX playerO =
     (if trim playerX = [] \<or> trim playerO = [] then Inl EnterBothNames
      else Inr (playerX, playerO))"

definition saveGame_index ::
  "bool \<Rightarrow> jsstring \<Rightarrow> jsstring \<Rightarrow> int \<Rightarrow> cell list \<Rightarrow> jsstring \<Rightarrow> game list option
     \<Rightarrow> error option \<times> game list option" where
  "saveGame_index io_ok playerX playerO now boardState res store =
     (let game = \<lparr>board = boardState, result = res,
                  players = \<lparr>nameX = playerX, nameO = playerO\<rparr>, timestamp = now\<rparr>
      in if io_ok
         then (None, Some (game # (case store of None \<Rightarrow> [] | Some gs \<Rightarrow> gs)))
         else (Some IOError, store))"

section \<open>Notions used to state the properties\<close>

text \<open>
  The grouping key of a record, the record as it is stored in its group, the distinct
  elements of a list in the order of their first occurrence, and a displayed record
  without its \<open>gameNumber\<close>.
\<close>

definition pairing_key :: "game \<Rightarrow> jsstring" where
  "pairing_key g = trim (nameX (players g)) @ sep @ trim (nameO (players g))"

definition normalise :: "game \<Rightarrow> game" where
  "normalise g = g\<lparr>players := \<lparr>nameX = trim (nameX (players g)), nameO = trim (nameO (players g))\<rparr>\<rparr>"

fun first_seen :: "'a list \<Rightarrow> 'a list \<Rightarrow> 'a list" where
  "first_seen seen [] = []"
| "first_seen seen (x # xs) =
     (if x \<in> set seen then first_seen seen xs else x # first_seen (x # seen) xs)"

definition unnumbered :: "numbered_game \<Rightarrow> game" where
  "unnumbered n =
     \<lparr>board = board n, result = result n, players = players n, timestamp = timestamp n\<rparr>"

text \<open>
  The records of a key in input order, as they are stored in their group; the numbering
  of a group's records by position; and the three kinds of result the counters tell
  apart, tested in the order of the source.
\<close>

definition members :: "game list \<Rightarrow> jsstring \<Rightarrow> game list" where
  "members gs k = map normalise (filter (\<lambda>g. pairing_key g = k) gs)"

definition numbered :: "game list \<Rightarrow> numbered_game list" where
  "numbered recs = map (\<lambda>i. with_gameNumber (recs ! i) i) [0..<length recs]"

definition x_win :: "game \<Rightarrow> bool" where
  "x_win g \<longleftrightarrow> result g = nameX (players g) @ lit '' wins''"

definition o_win :: "game \<Rightarrow> bool" where
  "o_win g \<longleftrightarrow> \<not> x_win g \<and> result g = nameO (players g) @ lit '' wins''"

definition drawn :: "game \<Rightarrow> bool" where
  "drawn g \<longleftrightarrow> \<not> x_win g \<and> \<not> o_win g"

text \<open>
  The group built from a key and the non-empty list of its records: the title, the
  numbered records, and the object literal of the three counters under the first
  record's names and \<open>Draws\<close>.
\<close>

definition expected_group :: "jsstring \<Rightarrow> game \<Rightarrow> game list \<Rightarrow> pairing_group" where
  "expected_group k first rest =
     \<lparr>title = k, data = numbered (first # rest),
      stats = object_literal
        [(nameX (players first), length (filter x_win (first # rest))),
         (nameO (players first), length (filter o_win (first # rest))),
         (lit ''Draws'', length (filter drawn (first # rest)))]\<rparr>"

text \<open>
  Two records whose trimmed player names are each other's, X for O.
\<close>

definition swapped :: "game \<Rightarrow> game \<Rightarrow> bool" where
  "swapped g1 g2 \<longleftrightarrow>
     trim (nameX (players g2)) = trim (nameO (players g1))
     \<and> trim (nameO (players g2)) = trim (nameX (players g1))"

section \<open>Example data\<close>

text \<open>
  A board on which X has completed the top row, a full board without a completed line,
  and records written with ASCII literals, as stored and as displayed.
\<close>

definition x_wins_board :: "cell list" where
  "x_wins_board =
     [Str (lit ''X''), Str (lit ''X''), Str (lit ''X''),
      Str (lit ''O''), Str (lit ''O''), Null,
      Null, Null, Null]"

definition o_wins_board :: "cell list" where
  "o_wins_board =
     [Str (lit ''X''), Str (lit ''X''), Null,
      Str (lit ''O''), Str (lit ''O''), Str (lit ''O''),
      Str (lit ''X''), Null, Null]"

definition draw_board :: "cell list" where
  "draw_board =
     [Str (lit ''X''), Str (lit ''O''), Str (lit ''X''),
      Str (lit ''X''), Str (lit ''O''), Str (lit ''O''),
      Str (lit ''O''), Str (lit ''X''), Str (lit ''X'')]"

definition example_game :: "string \<Rightarrow> string \<Rightarrow> string \<Rightarrow> cell list \<Rightarrow> int \<Rightarrow> game" where
  "example_game x y r b t =
     \<lparr>board = b, result = lit r, players = \<lparr>nameX = lit x, nameO = lit y\<rparr>, timestamp = t\<rparr>"

definition example_numbered ::
  "string \<Rightarrow> string \<Rightarrow> string \<Rightarrow> cell list \<Rightarrow> int \<Rightarrow> string \<Rightarrow> numbered_game" where
  "example_numbered x y r b t n =
     \<lparr>board = b, result = lit r, players = \<lparr>nameX = lit x, nameO = lit y\<rparr>, timestamp = t,
      gameNumber = lit n\<rparr>"

text \<open>The history of three games of the specification's example.\<close>

definition ann_bo_history :: "game list" where
  "ann_bo_history =
     [example_game ''Ann'' ''Bo'' ''Ann wins'' x_wins_board 1700000003000,
      example_game ''Ann'' ''Bo'' ''Draw'' draw_board 1700000002000,
      example_game ''Bo'' ''Ann'' ''Bo wins'' x_wins_board 1700000001000]"

text \<open>
  A history of two games between two players both called \<open>A\<close>: one won by X, one drawn.
\<close>

definition a_a_history :: "game list" where
  "a_a_history =
     [example_game ''A'' ''A'' ''A wins'' x_wins_board 1700000003000,
      example_game ''A'' ''A'' ''Draw'' draw_board 1700000002000]"

text \<open>
  The history screen showing the example history while the title \<open>Ann vs Bo\<close> is being
  edited, with a given text in the input field.
\<close>

definition example_state :: "jsstring \<Rightarrow> history_state" where
  "example_state text =
     \<lparr>games = ann_bo_history, editingTitle = Some (lit ''Ann vs Bo''),
      editedTitleText = text, storage = Some ann_bo_history\<rparr>"

section \<open>Properties of win detection\<close>

lemma at_nth: "i < length xs \<Longrightarrow> at xs i = Some (xs ! i)"
  by (induction xs i rule: at.induct) auto

lemma at_None: "length xs \<le> i \<Longrightarrow> at xs i = None"
  by (induction xs i rule: at.induct) auto

lemma lit_X_nonempty: "lit ''X'' \<noteq> []" and lit_O_nonempty: "lit ''O'' \<noteq> []"
  by (simp_all add: lit_def)

lemma lines_in_range: "(a, b1, c) \<in> set lines \<Longrightarrow> a < 9 \<and> b1 < 9 \<and> c < 9"
  by (auto simp: lines_def)

lemma board_ok_cell:
  assumes "board_ok b" and "i < 9"
  shows "b ! i = Null \<or> b ! i = Str (lit ''X'') \<or> b ! i = Str (lit ''O'')"
proof -
  from assms have "b ! i \<in> set b" by (simp add: board_ok_def)
  with assms(1) show ?thesis by (auto simp: board_ok_def)
qed

text \<open>On a well-formed board the loop's test on a line in range is the completed-line test.\<close>

lemma hit_iff_complete:
  assumes ok: "board_ok b" and rng: "a < 9" "b1 < 9" "c < 9"
  shows "line_test b a b1 c \<longleftrightarrow> line_complete b (a, b1, c)"
proof -
  from ok have len: "length b = 9" by (simp add: board_ok_def)
  from board_ok_cell[OF ok rng(1)] show ?thesis
    using len rng lit_X_nonempty lit_O_nonempty
    by (auto simp: at_nth line_complete_def line_test_def)
qed

lemma loop_none:
  assumes "board_ok b" and "set ls \<subseteq> set lines" and "\<forall>l \<in> set ls. \<not> line_complete b l"
  shows "calculateWinner_loop b ls = None"
  using assms(2,3)
proof (induction ls)
  case Nil
  show ?case by simp
next
  case (Cons l ls)
  obtain a b1 c where l: "l = (a, b1, c)" by (cases l) auto
  with Cons.prems have "(a, b1, c) \<in> set lines" by auto
  then have rng: "a < 9" "b1 < 9" "c < 9" using lines_in_range by blast+
  from Cons.prems l have "\<not> line_complete b (a, b1, c)" by simp
  with hit_iff_complete[OF assms(1) rng]
  have "\<not> line_test b a b1 c" by simp
  moreover from Cons have "calculateWinner_loop b ls = None" by simp
  ultimately show ?case using l by simp
qed

lemma loop_first:
  assumes ok: "board_ok b"
  shows "set ls \<subseteq> set lines \<Longrightarrow> i < length ls \<Longrightarrow> line_complete b (ls ! i) \<Longrightarrow>
         \<forall>j<i. \<not> line_complete b (ls ! j) \<Longrightarrow>
         \<exists>s. b ! fst (ls ! i) = Str s \<and> (s = lit ''X'' \<or> s = lit ''O'') \<and>
             calculateWinner_loop b ls = Some (s, triple (ls ! i))"
proof (induction ls arbitrary: i)
  case Nil
  then show ?case by simp
next
  case (Cons l ls)
  obtain a b1 c where l: "l = (a, b1, c)" by (cases l) auto
  with Cons.prems have "(a, b1, c) \<in> set lines" by auto
  then have rng: "a < 9" "b1 < 9" "c < 9" using lines_in_range by blast+
  from ok have len: "length b = 9" by (simp add: board_ok_def)
  note hit = hit_iff_complete[OF ok rng]
  show ?case
  proof (cases i)
    case 0
    with Cons.prems l have compl: "line_complete b (a, b1, c)" by simp
    then have nn: "b ! a \<noteq> Null" by (simp add: line_complete_def)
    with board_ok_cell[OF ok rng(1)]
    obtain s where s: "b ! a = Str s" "s = lit ''X'' \<or> s = lit ''O''" by auto
    then have "at b a = Some (Str s)" using len rng by (simp add: at_nth)
    with compl hit have "calculateWinner_loop b (l # ls) = Some (s, [a, b1, c])"
      using l by simp
    with s 0 l show ?thesis by (simp add: triple_def)
  next
    case (Suc k)
    with Cons.prems have "\<not> line_complete b ((l # ls) ! 0)" by blast
    with l hit have skip: "calculateWinner_loop b (l # ls) = calculateWinner_loop b ls"
      by simp
    from Cons.prems Suc have "set ls \<subseteq> set lines" "k < length ls" "line_complete b (ls ! k)"
      by auto
    moreover from Cons.prems Suc have "\<forall>j<k. \<not> line_complete b (ls ! j)" by force
    ultimately have "\<exists>s. b ! fst (ls ! k) = Str s \<and> (s = lit ''X'' \<or> s = lit ''O'') \<and>
        calculateWinner_loop b ls = Some (s, triple (ls ! k))"
      by (rule Cons.IH)
    with skip Suc show ?thesis by simp
  qed
qed

lemma first_index:
  "\<exists>x \<in> set xs. P x \<Longrightarrow> \<exists>i<length xs. P (xs ! i) \<and> (\<forall>j<i. \<not> P (xs ! j))"
proof (induction xs)
  case Nil
  then show ?case by simp
next
  case (Cons x xs)
  show ?case
  proof (cases "P x")
    case True
    then have "P ((x # xs) ! 0) \<and> (\<forall>j<0. \<not> P ((x # xs) ! j))" by simp
    then show ?thesis by blast
  next
    case False
    with Cons obtain i where i: "i < length xs" "P (xs ! i)" "\<forall>j<i. \<not> P (xs ! j)" by auto
    have "\<forall>j<Suc i. \<not> P ((x # xs) ! j)"
    proof (intro allI impI)
      fix j assume "j < Suc i"
      then show "\<not> P ((x # xs) ! j)" using False i(3) by (cases j) auto
    qed
    with i have "Suc i < length (x # xs) \<and> P ((x # xs) ! Suc i) \<and> (\<forall>j<Suc i. \<not> P ((x # xs) ! j))"
      by simp
    then show ?thesis by blast
  qed
qed

text \<open>
  C1. On every board of nine cells that are each empty, X or O, \<open>calculateWinner\<close>
  returns the symbol and the exact index triple of the first completed line in the fixed
  order rows, columns, diagonals when some line is completed, and returns nothing when
  no line is completed. The function is total: it has no error branch.
\<close>

theorem calculateWinner_first_completed_line:
  assumes "board_ok b"
  shows "lines = [(0, 1, 2), (3, 4, 5), (6, 7, 8), (0, 3, 6), (1, 4, 7), (2, 5, 8),
                  (0, 4, 8), (2, 4, 6)]
    \<and> ((\<exists>l \<in> set lines. line_complete b l) \<longrightarrow>
         (\<exists>i<length lines. line_complete b (lines ! i)
            \<and> (\<forall>j<i. \<not> line_complete b (lines ! j))
            \<and> (\<exists>s. b ! fst (lines ! i) = Str s \<and> (s = lit ''X'' \<or> s = lit ''O'')
                  \<and> calculateWinner b = Some (s, triple (lines ! i)))))
    \<and> ((\<forall>l \<in> set lines. \<not> line_complete b l) \<longrightarrow> calculateWinner b = None)"
proof (intro conjI impI)
  show "lines = [(0, 1, 2), (3, 4, 5), (6, 7, 8), (0, 3, 6), (1, 4, 7), (2, 5, 8),
                 (0, 4, 8), (2, 4, 6)]"
    by (simp add: lines_def)
next
  assume "\<exists>l \<in> set lines. line_complete b l"
  then obtain i where i: "i < length lines" "line_complete b (lines ! i)"
      "\<forall>j<i. \<not> line_complete b (lines ! j)"
    using first_index[of lines "line_complete b"] by blast
  from loop_first[OF assms subset_refl i]
  obtain s where "b ! fst (lines ! i) = Str s" "s = lit ''X'' \<or> s = lit ''O''"
      "calculateWinner b = Some (s, triple (lines ! i))"
    by (auto simp: calculateWinner_def)
  with i show "\<exists>i<length lines. line_complete b (lines ! i)
            \<and> (\<forall>j<i. \<not> line_complete b (lines ! j))
            \<and> (\<exists>s. b ! fst (lines ! i) = Str s \<and> (s = lit ''X'' \<or> s = lit ''O'')
                  \<and> calculateWinner b = Some (s, triple (lines ! i)))"
    by blast
next
  assume "\<forall>l \<in> set lines. \<not> line_complete b l"
  with loop_none[OF assms subset_refl] show "calculateWinner b = None"
    by (simp add: calculateWinner_def)
qed

text \<open>
  The theorem at three boards: a hand-made board with two completed rows, X X X over
  O O O, where the top row comes first in the fixed order, so X wins with the triple
  0, 1, 2; the empty board; and a full board without a completed line.
\<close>

theorem calculateWinner_first_completed_line_witness:
  "board_ok [Str (lit ''X''), Str (lit ''X''), Str (lit ''X''),
             Str (lit ''O''), Str (lit ''O''), Str (lit ''O''), Null, Null, Null]
   \<and> calculateWinner [Str (lit ''X''), Str (lit ''X''), Str (lit ''X''),
             Str (lit ''O''), Str (lit ''O''), Str (lit ''O''), Null, Null, Null]
       = Some (lit ''X'', [0, 1, 2])
   \<and> board_ok [Null, Null, Null, Null, Null, Null, Null, Null, Null]
   \<and> calculateWinner [Null, Null, Null, Null, Null, Null, Null, Null, Null] = None
   \<and> board_ok draw_board
   \<and> calculateWinner draw_board = None"
proof -
  let ?b = "[Str (lit ''X''), Str (lit ''X''), Str (lit ''X''),
             Str (lit ''O''), Str (lit ''O''), Str (lit ''O''), Null, Null, Null]"
  have ok: "board_ok ?b" by (simp add: board_ok_def)
  have c0: "line_complete ?b (lines ! 0)" by (simp add: lines_def line_complete_def)
  from calculateWinner_first_completed_line[OF ok]
  have "(\<exists>l \<in> set lines. line_complete ?b l) \<longrightarrow>
         (\<exists>i<length lines. line_complete ?b (lines ! i)
            \<and> (\<forall>j<i. \<not> line_complete ?b (lines ! j))
            \<and> (\<exists>s. ?b ! fst (lines ! i) = Str s \<and> (s = lit ''X'' \<or> s = lit ''O'')
                  \<and> calculateWinner ?b = Some (s, triple (lines ! i))))"
    by blast
  moreover have "\<exists>l \<in> set lines. line_complete ?b l"
    using c0 by (auto simp: lines_def)
  ultimately obtain i s where i: "\<forall>j<i. \<not> line_complete ?b (lines ! j)"
      and s: "?b ! fst (lines ! i) = Str s"
      and w: "calculateWinner ?b = Some (s, triple (lines ! i))"
    by blast
  have "i = 0"
  proof (rule ccontr)
    assume "i \<noteq> 0"
    then have "0 < i" by simp
    with i c0 show False by blast
  qed
  with s w have win: "calculateWinner ?b = Some (lit ''X'', [0, 1, 2])"
    by (simp add: lines_def triple_def)
  let ?e = "[Null, Null, Null, Null, Null, Null, Null, Null, Null]"
  have oke: "board_ok ?e" by (simp add: board_ok_def)
  have "\<forall>l \<in> set lines. \<not> line_complete ?e l"
    by (simp add: lines_def line_complete_def)
  with calculateWinner_first_completed_line[OF oke]
  have none_e: "calculateWinner ?e = None" by blast
  have okd: "board_ok draw_board" by (simp add: board_ok_def draw_board_def)
  have "\<forall>l \<in> set lines. \<not> line_complete draw_board l"
    by (simp add: lines_def line_complete_def draw_board_def lit_def)
  with calculateWinner_first_completed_line[OF okd]
  have none_d: "calculateWinner draw_board = None" by blast
  from ok win oke none_e okd none_d show ?thesis by (intro conjI)
qed

section \<open>Properties of strings and keys\<close>

lemma trim_split: "dropWhile is_ws s = trim s @ rev (takeWhile is_ws (rev (dropWhile is_ws s)))"
proof -
  let ?d = "dropWhile is_ws s"
  have "?d = rev (rev ?d)" by simp
  also have "\<dots> = rev (takeWhile is_ws (rev ?d) @ dropWhile is_ws (rev ?d))"
    by (simp only: takeWhile_dropWhile_id)
  also have "\<dots> = rev (dropWhile is_ws (rev ?d)) @ rev (takeWhile is_ws (rev ?d))"
    by (simp only: rev_append)
  finally show ?thesis by (simp only: trim_def)
qed

lemma trim_decomp:
  "\<exists>pre suf. s = pre @ trim s @ suf \<and> (\<forall>c \<in> set pre. is_ws c) \<and> (\<forall>c \<in> set suf. is_ws c)"
proof -
  let ?pre = "takeWhile is_ws s"
  let ?suf = "rev (takeWhile is_ws (rev (dropWhile is_ws s)))"
  have "s = ?pre @ dropWhile is_ws s" by simp
  with trim_split[of s] have "s = ?pre @ trim s @ ?suf" by simp
  moreover have "\<forall>c \<in> set ?pre. is_ws c" by (auto dest: set_takeWhileD)
  moreover have "\<forall>c \<in> set ?suf. is_ws c" by (auto dest: set_takeWhileD)
  ultimately show ?thesis by blast
qed

lemma trim_last: "trim s \<noteq> [] \<Longrightarrow> \<not> is_ws (last (trim s))"
  unfolding trim_def by (simp add: last_rev hd_dropWhile)

lemma trim_hd: assumes "trim s \<noteq> []" shows "\<not> is_ws (hd (trim s))"
proof -
  from trim_split[of s] assms have "hd (dropWhile is_ws s) = hd (trim s)" 
    by (metis hd_append2)
  moreover from trim_split[of s] assms have "dropWhile is_ws s \<noteq> []"
    by (metis append_is_Nil_conv)
  ultimately show ?thesis using hd_dropWhile[of is_ws s] by simp
qed

lemma trim_fixed: "s = [] \<or> (\<not> is_ws (hd s) \<and> \<not> is_ws (last s)) \<Longrightarrow> trim s = s"
proof (cases "s = []")
  case True then show ?thesis by (simp add: trim_def)
next
  case False
  assume "s = [] \<or> (\<not> is_ws (hd s) \<and> \<not> is_ws (last s))"
  with False have h: "\<not> is_ws (hd s)" and l: "\<not> is_ws (last s)" by auto
  from False h have "dropWhile is_ws s = s" by (cases s) auto
  moreover from False l have "dropWhile is_ws (rev s) = rev s" by (cases "rev s") (auto simp: hd_rev[symmetric])
  ultimately show ?thesis by (simp add: trim_def)
qed

lemma trim_idem: "trim (trim s) = trim s"
  using trim_fixed[of "trim s"] trim_hd[of s] trim_last[of s] by blast

lemma space_in_sep: "0x20 \<in> set sep" by (simp add: sep_def lit_def)

lemma key_not_index: "\<not> is_array_index (x @ sep @ y)"
proof -
  have "\<not> is_digit 0x20" by (simp add: is_digit_def)
  with space_in_sep have "\<not> list_all is_digit (x @ sep @ y)" by (auto simp: list_all_iff)
  then show ?thesis unfolding is_array_index_def by blast
qed

lemma Object_entries_no_index:
  "\<forall>p \<in> set obj. \<not> is_array_index (fst p) \<Longrightarrow> Object_entries obj = obj"
  by (simp add: Object_entries_def filter_empty_conv[THEN iffD2] filter_id_conv[THEN iffD2])

section \<open>The grouping loop\<close>

lemma update_absent: "map_of al k = None \<Longrightarrow> AList.update k v al = al @ [(k, v)]"
  by (induction al) (auto split: if_splits)

lemma update_present:
  "distinct (map fst al) \<Longrightarrow> map_of al k = Some a \<Longrightarrow>
   AList.update k v al = map (\<lambda>p. if fst p = k then (k, v) else p) al"
proof (induction al)
  case Nil
  then show ?case by simp
next
  case (Cons p al)
  show ?case
  proof (cases "fst p = k")
    case True
    with Cons.prems have "k \<notin> fst ` set al" by auto
    then have "map (\<lambda>p. if fst p = k then (k, v) else p) al = al"
      by (intro map_idI) auto
    with True show ?thesis by (cases p) simp
  next
    case False
    with Cons show ?thesis by (cases p) auto
  qed
qed

lemma first_seen_set_cong: "set s = set s' \<Longrightarrow> first_seen s xs = first_seen s' xs"
proof (induction xs arbitrary: s s')
  case Nil
  show ?case by simp
next
  case (Cons x xs)
  from Cons.prems have "set (x # s) = set (x # s')" by simp
  then have "first_seen (x # s) xs = first_seen (x # s') xs" by (rule Cons.IH)
  moreover from Cons.prems have "first_seen s xs = first_seen s' xs" by (rule Cons.IH)
  ultimately show ?case using Cons.prems by simp
qed

lemma first_seen_fresh: "x \<in> set (first_seen s xs) \<Longrightarrow> x \<notin> set s \<and> x \<in> set xs"
  by (induction s xs rule: first_seen.induct) (auto split: if_splits)

lemma first_seen_distinct: "distinct (first_seen s xs)"
  by (induction s xs rule: first_seen.induct) (auto dest: first_seen_fresh)

lemma first_seen_set: "set (first_seen s xs) = set xs - set s"
  by (induction s xs rule: first_seen.induct) auto

lemma members_Nil: "members [] k = []"
  by (simp add: members_def)

lemma members_Cons:
  "members (g # gs) k = (if pairing_key g = k then normalise g # members gs k else members gs k)"
  by (simp add: members_def)

lemma loop_step_absent:
  assumes "map_of groups (pairing_key g) = None"
  shows "groupGames_loop groups (g # rest) =
         groupGames_loop (groups @ [(pairing_key g, [normalise g])]) rest"
proof -
  let ?k = "pairing_key g"
  have u: "AList.update ?k [] groups = groups @ [(?k, [])]"
    using assms by (rule update_absent)
  have m: "map_of (groups @ [(?k, [])]) ?k = Some []"
    using assms by (simp add: map_add_def)
  have "AList.update ?k [normalise g] (groups @ [(?k, [])]) = groups @ [(?k, [normalise g])]"
    using assms by (induction groups) (auto split: if_splits)
  with u m assms show ?thesis
    by (simp add: pairing_key_def normalise_def Let_def)
qed

lemma loop_step_present:
  assumes "map_of groups (pairing_key g) = Some arr"
  shows "groupGames_loop groups (g # rest) =
         groupGames_loop (AList.update (pairing_key g) (arr @ [normalise g]) groups) rest"
  using assms by (simp add: pairing_key_def normalise_def Let_def)

lemma loop_char:
  "distinct (map fst groups) \<Longrightarrow>
   groupGames_loop groups gs =
     Inr (map (\<lambda>p. (fst p, snd p @ members gs (fst p))) groups
          @ map (\<lambda>k. (k, members gs k)) (first_seen (map fst groups) (map pairing_key gs)))"
proof (induction gs arbitrary: groups)
  case Nil
  then show ?case by (simp add: members_Nil)
next
  case (Cons g rest)
  let ?k = "pairing_key g"
  let ?e = "normalise g"
  let ?seen = "map fst groups"
  show ?case
  proof (cases "map_of groups ?k")
    case None
    then have fresh: "?k \<notin> set ?seen" by (simp add: map_of_eq_None_iff)
    let ?groups' = "groups @ [(?k, [?e])]"
    from fresh Cons.prems have d: "distinct (map fst ?groups')" by simp
    have old: "map (\<lambda>p. (fst p, snd p @ members rest (fst p))) groups
             = map (\<lambda>p. (fst p, snd p @ members (g # rest) (fst p))) groups"
      using fresh by (intro map_cong refl) (auto simp: members_Cons)
    have fs: "first_seen (?seen @ [?k]) (map pairing_key rest)
            = first_seen (?k # ?seen) (map pairing_key rest)"
      by (rule first_seen_set_cong) auto
    have new: "map (\<lambda>k. (k, members rest k)) (first_seen (?k # ?seen) (map pairing_key rest))
             = map (\<lambda>k. (k, members (g # rest) k)) (first_seen (?k # ?seen) (map pairing_key rest))"
      by (intro map_cong refl) (auto simp: members_Cons dest: first_seen_fresh)
    have "groupGames_loop groups (g # rest) = groupGames_loop ?groups' rest"
      using None by (rule loop_step_absent)
    also have "\<dots> = Inr (map (\<lambda>p. (fst p, snd p @ members rest (fst p))) ?groups'
          @ map (\<lambda>k. (k, members rest k)) (first_seen (map fst ?groups') (map pairing_key rest)))"
      using d by (rule Cons.IH)
    also have "\<dots> = Inr (map (\<lambda>p. (fst p, snd p @ members (g # rest) (fst p))) groups
          @ map (\<lambda>k. (k, members (g # rest) k)) (first_seen ?seen (map pairing_key (g # rest))))"
    proof -
      have hd: "(?k, [?e] @ members rest ?k) = (?k, members (g # rest) ?k)"
        by (simp add: members_Cons)
      have "map (\<lambda>p. (fst p, snd p @ members rest (fst p))) ?groups'
          = map (\<lambda>p. (fst p, snd p @ members (g # rest) (fst p))) groups
            @ [(?k, members (g # rest) ?k)]"
        using old hd by simp
      moreover have "first_seen ?seen (map pairing_key (g # rest))
          = ?k # first_seen (?k # ?seen) (map pairing_key rest)"
        using fresh by simp
      ultimately show ?thesis by (simp add: fs new)
    qed
    finally show ?thesis .
  next
    case (Some arr)
    then have seen: "?k \<in> set ?seen" by (auto dest: map_of_SomeD intro: rev_image_eqI)
    let ?groups' = "AList.update ?k (arr @ [?e]) groups"
    have keys: "map fst ?groups' = ?seen" using seen by (simp add: update_keys)
    with Cons.prems have d: "distinct (map fst ?groups')" by simp
    have upd: "?groups' = map (\<lambda>p. if fst p = ?k then (?k, arr @ [?e]) else p) groups"
      using Cons.prems Some by (rule update_present)
    have old: "map (\<lambda>p. (fst p, snd p @ members rest (fst p))) ?groups'
             = map (\<lambda>p. (fst p, snd p @ members (g # rest) (fst p))) groups"
    proof -
      have "\<And>p. p \<in> set groups \<Longrightarrow> fst p = ?k \<Longrightarrow> snd p = arr"
      proof -
        fix p assume "p \<in> set groups" "fst p = ?k"
        then have "(?k, snd p) \<in> set groups" by (metis prod.collapse)
        with Cons.prems have "map_of groups ?k = Some (snd p)" by (rule map_of_is_SomeI)
        with Some show "snd p = arr" by simp
      qed
      then show ?thesis unfolding upd map_map
        by (intro map_cong refl) (auto simp: members_Cons)
    qed
    have new: "map (\<lambda>k. (k, members rest k)) (first_seen ?seen (map pairing_key rest))
             = map (\<lambda>k. (k, members (g # rest) k)) (first_seen ?seen (map pairing_key rest))"
    proof (intro map_cong refl)
      fix k assume "k \<in> set (first_seen ?seen (map pairing_key rest))"
      then have "k \<notin> set ?seen" by (rule first_seen_fresh[THEN conjunct1])
      with seen have "?k \<noteq> k" by auto
      then show "(k, members rest k) = (k, members (g # rest) k)" by (simp add: members_Cons)
    qed
    have "groupGames_loop groups (g # rest) = groupGames_loop ?groups' rest"
      using Some by (rule loop_step_present)
    also have "\<dots> = Inr (map (\<lambda>p. (fst p, snd p @ members rest (fst p))) ?groups'
          @ map (\<lambda>k. (k, members rest k)) (first_seen (map fst ?groups') (map pairing_key rest)))"
      using d by (rule Cons.IH)
    also have "\<dots> = Inr (map (\<lambda>p. (fst p, snd p @ members (g # rest) (fst p))) groups
          @ map (\<lambda>k. (k, members (g # rest) k)) (first_seen ?seen (map pairing_key (g # rest))))"
    proof -
      have "first_seen ?seen (map pairing_key (g # rest)) = first_seen ?seen (map pairing_key rest)"
        using seen by simp
      then show ?thesis by (simp only: old keys new)
    qed
    finally show ?thesis .
  qed
qed

lemma groupGames_loop_char:
  "groupGames_loop [] gs = Inr (map (\<lambda>k. (k, members gs k)) (first_seen [] (map pairing_key gs)))"
  using loop_char[of "[]" gs] by simp

section \<open>Building the groups\<close>

lemma numberedData_fst:
  "fst (numberedData_loop i recs cnt) = map (\<lambda>j. with_gameNumber (recs ! j) (i + j)) [0..<length recs]"
proof (induction recs arbitrary: i cnt)
  case Nil
  show ?case by simp
next
  case (Cons g recs)
  have "fst (numberedData_loop i (g # recs) cnt)
      = with_gameNumber g i # fst (numberedData_loop (i + 1) recs (count_result g cnt))"
    by (simp split: prod.splits)
  also have "\<dots> = with_gameNumber g i # map (\<lambda>j. with_gameNumber (recs ! j) (i + 1 + j)) [0..<length recs]"
    by (simp only: Cons.IH)
  also have "\<dots> = map (\<lambda>j. with_gameNumber ((g # recs) ! j) (i + j)) [0..<length (g # recs)]"
    by (simp add: map_upt_Suc del: upt_Suc)
  finally show ?case .
qed

lemma numberedData_snd: "snd (numberedData_loop i recs cnt) = fold count_result recs cnt"
proof (induction recs arbitrary: i cnt)
  case Nil
  show ?case by simp
next
  case (Cons g recs)
  have "snd (numberedData_loop i (g # recs) cnt)
      = snd (numberedData_loop (i + 1) recs (count_result g cnt))"
    by (simp split: prod.splits)
  then show ?case by (simp only: Cons.IH fold_simps)
qed

lemma count_result_kind:
  "count_result g (x, y, d) =
     (x + (if x_win g then 1 else 0), y + (if o_win g then 1 else 0), d + (if drawn g then 1 else 0))"
  by (simp add: x_win_def o_win_def drawn_def)

lemma fold_count_result:
  "fold count_result recs (x, y, d) =
     (x + length (filter x_win recs), y + length (filter o_win recs), d + length (filter drawn recs))"
proof (induction recs arbitrary: x y d)
  case Nil
  show ?case by simp
next
  case (Cons g recs)
  show ?case by (simp only: fold_simps count_result_kind Cons.IH) simp
qed

lemma kinds_partition:
  "length (filter x_win recs) + length (filter o_win recs) + length (filter drawn recs) = length recs"
  by (induction recs) (auto simp: drawn_def o_win_def)

lemma group_of_entry_Cons:
  "group_of_entry (k, first # rest) = Inr (expected_group k first rest)"
proof -
  obtain nd cs where l: "numberedData_loop 0 (first # rest) (0, 0, 0) = (nd, cs)"
    by (cases "numberedData_loop 0 (first # rest) (0, 0, 0)") auto
  have "nd = fst (numberedData_loop 0 (first # rest) (0, 0, 0))" using l by simp
  then have nd: "nd = numbered (first # rest)"
    by (simp only: numberedData_fst numbered_def add_0)
  have "cs = snd (numberedData_loop 0 (first # rest) (0, 0, 0))" using l by simp
  then have cs: "cs = (length (filter x_win (first # rest)), length (filter o_win (first # rest)),
                       length (filter drawn (first # rest)))"
    by (simp only: numberedData_snd fold_count_result add_0)
  have "group_of_entry (k, first # rest) =
        (case (nd, cs) of
           (numberedData, (xWins, oWins, draws)) \<Rightarrow>
             Inr \<lparr>title = k, data = numberedData,
                  stats = object_literal
                    [(nameX (players first), xWins), (nameO (players first), oWins),
                     (lit ''Draws'', draws)]\<rparr>)"
    by (simp only: group_of_entry_def prod.case l list.case)
  then show ?thesis by (simp add: nd cs expected_group_def del: numberedData_loop.simps)
qed

lemma map_result_all2:
  "(\<And>x. x \<in> set xs \<Longrightarrow> \<exists>y. f x = Inr y \<and> R x y) \<Longrightarrow>
   \<exists>ys. map_result f xs = Inr ys \<and> list_all2 R xs ys"
proof (induction xs)
  case Nil
  show ?case by simp
next
  case (Cons x xs)
  from Cons.prems obtain y where y: "f x = Inr y" "R x y" by auto
  from Cons obtain ys where ys: "map_result f xs = Inr ys" "list_all2 R xs ys" by auto
  from y ys have "map_result f (x # xs) = Inr (y # ys) \<and> list_all2 R (x # xs) (y # ys)" by simp
  then show ?case by blast
qed

lemma members_nonempty: "k \<in> pairing_key ` set gs \<Longrightarrow> members gs k \<noteq> []"
  by (auto simp: members_def filter_empty_conv)

lemma pairing_key_normalise: "pairing_key (normalise g) = pairing_key g"
  by (simp add: pairing_key_def normalise_def trim_idem)

lemma members_key: "e \<in> set (members gs k) \<Longrightarrow> pairing_key e = k"
  by (auto simp: members_def pairing_key_normalise)

text \<open>What \<open>groupGamesByPlayers\<close> returns, for every input: it never raises.\<close>

lemma groupGamesByPlayers_char:
  "\<exists>groups. groupGamesByPlayers gs = Inr groups \<and>
     list_all2 (\<lambda>k G. \<exists>first rest. members gs k = first # rest \<and> G = expected_group k first rest)
       (first_seen [] (map pairing_key gs)) groups"
proof -
  let ?keys = "first_seen [] (map pairing_key gs)"
  let ?groups = "map (\<lambda>k. (k, members gs k)) ?keys"
  let ?R = "\<lambda>p G. \<exists>first rest. members gs (fst p) = first # rest \<and> G = expected_group (fst p) first rest"
  have loop: "groupGames_loop [] gs = Inr ?groups" by (rule groupGames_loop_char)
  have "\<forall>p \<in> set ?groups. \<not> is_array_index (fst p)"
  proof
    fix p assume "p \<in> set ?groups"
    then have "fst p \<in> set ?keys" by auto
    then have "fst p \<in> set (map pairing_key gs)" by (rule first_seen_fresh[THEN conjunct2])
    then show "\<not> is_array_index (fst p)" by (auto simp: pairing_key_def key_not_index)
  qed
  then have entries: "Object_entries ?groups = ?groups" by (rule Object_entries_no_index)
  have "\<exists>ys. map_result group_of_entry ?groups = Inr ys \<and> list_all2 ?R ?groups ys"
  proof (rule map_result_all2)
    fix p assume "p \<in> set ?groups"
    then obtain k where k: "k \<in> set ?keys" "p = (k, members gs k)" by auto
    from k(1) have "k \<in> set (map pairing_key gs)" by (rule first_seen_fresh[THEN conjunct2])
    then have "members gs k \<noteq> []" by (simp add: members_nonempty)
    then obtain first rest where m: "members gs k = first # rest" by (cases "members gs k") auto
    with k have "group_of_entry p = Inr (expected_group k first rest)"
      by (simp add: group_of_entry_Cons)
    with m k show "\<exists>y. group_of_entry p = Inr y \<and> ?R p y" by simp
  qed
  then obtain ys where ys: "map_result group_of_entry ?groups = Inr ys" "list_all2 ?R ?groups ys"
    by blast
  from ys(2) have "list_all2 (\<lambda>k G. \<exists>first rest. members gs k = first # rest \<and> G = expected_group k first rest) ?keys ys"
    by (simp add: list_all2_map1)
  moreover have "groupGamesByPlayers gs = Inr ys"
    by (simp add: groupGamesByPlayers_def loop entries ys(1))
  ultimately show ?thesis by blast
qed

lemma list_all2_map_eq: "list_all2 (\<lambda>x y. f y = x \<and> Q x y) xs ys \<Longrightarrow> map f ys = xs"
  by (induction xs ys rule: list_all2_induct) auto

lemma list_all2_right: "list_all2 R xs ys \<Longrightarrow> y \<in> set ys \<Longrightarrow> \<exists>x \<in> set xs. R x y"
  by (induction xs ys rule: list_all2_induct) auto

lemma title_expected: "title (expected_group k first rest) = k"
  by (simp add: expected_group_def)

lemma unnumbered_with_gameNumber: "unnumbered (with_gameNumber g i) = g"
  by (simp add: unnumbered_def with_gameNumber_def)

lemma unnumbered_numbered: "map unnumbered (numbered recs) = recs"
proof -
  have "map unnumbered (numbered recs) = map (\<lambda>i. recs ! i) [0..<length recs]"
    by (simp add: numbered_def unnumbered_with_gameNumber)
  then show ?thesis by (simp only: map_nth)
qed

lemma length_numbered: "length (numbered recs) = length recs"
  by (simp add: numbered_def)

lemma groups_props:
  "\<exists>groups. groupGamesByPlayers gs = Inr groups
     \<and> map title groups = first_seen [] (map pairing_key gs)
     \<and> (\<forall>G \<in> set groups. \<exists>first rest.
           members gs (title G) = first # rest \<and> G = expected_group (title G) first rest)"
proof -
  let ?R = "\<lambda>k G. \<exists>first rest. members gs k = first # rest \<and> G = expected_group k first rest"
  from groupGamesByPlayers_char[of gs] obtain groups where
    g: "groupGamesByPlayers gs = Inr groups"
    and a: "list_all2 ?R (first_seen [] (map pairing_key gs)) groups"
    by blast
  from a have "list_all2 (\<lambda>k G. title G = k \<and> ?R k G) (first_seen [] (map pairing_key gs)) groups"
    by (rule list_all2_mono) (auto simp: title_expected)
  then have t: "map title groups = first_seen [] (map pairing_key gs)"
    by (rule list_all2_map_eq)
  have "\<forall>G \<in> set groups. \<exists>first rest.
           members gs (title G) = first # rest \<and> G = expected_group (title G) first rest"
  proof
    fix G assume "G \<in> set groups"
    with a have "\<exists>k \<in> set (first_seen [] (map pairing_key gs)). ?R k G"
      by (rule list_all2_right)
    then obtain k where "?R k G" by blast
    then obtain first rest where m: "members gs k = first # rest"
      and e: "G = expected_group k first rest"
      by blast
    have "title (expected_group k first rest) = k" by (rule title_expected)
    with e have tk: "title G = k" by simp
    show "\<exists>first rest.
           members gs (title G) = first # rest \<and> G = expected_group (title G) first rest"
      unfolding tk using m e by blast
  qed
  with g t show ?thesis by blast
qed

lemma group_data:
  assumes e: "G = expected_group k first rest"
  shows "map unnumbered (data G) = first # rest"
proof -
  have "data (expected_group k first rest) = numbered (first # rest)"
    by (simp add: expected_group_def)
  with e have "data G = numbered (first # rest)" by simp
  then show ?thesis by (simp only: unnumbered_numbered)
qed

section \<open>Properties of grouping\<close>

lemmas eval_simps = example_game_def example_numbered_def groupGamesByPlayers_def lit_def
  trim_def is_ws_def sep_def Object_entries_def is_array_index_def is_digit_def
  group_of_entry_def object_literal_def with_gameNumber_def Let_def

lemma group_members:
  assumes "members gs (title G) = first # rest" and "G = expected_group (title G) first rest"
  shows "map unnumbered (data G) = map normalise (filter (\<lambda>g. pairing_key g = title G) gs)"
proof -
  from assms(2) have "map unnumbered (data G) = first # rest" by (rule group_data)
  with assms(1) show ?thesis by (simp add: members_def)
qed

lemma swap_keys_differ:
  assumes "x \<noteq> y" and "length x = length y \<or> (0x20 \<notin> set x \<and> 0x20 \<notin> set y)"
  shows "x @ sep @ y \<noteq> y @ sep @ x"
proof
  assume eq: "x @ sep @ y = y @ sep @ x"
  from assms(2) show False
  proof
    assume "length x = length y"
    then have "(x @ (sep @ y) = y @ (sep @ x)) = (x = y \<and> sep @ y = sep @ x)"
      by (intro append_eq_append_conv disjI1)
    with eq have "x = y" by blast
    with assms(1) show False by blast
  next
    assume ns: "0x20 \<notin> set x \<and> 0x20 \<notin> set y"
    obtain s where s: "sep = 0x20 # s" by (simp add: sep_def lit_def)
    have tw: "takeWhile (\<lambda>c. c \<noteq> 0x20) (z @ sep @ w) = z" if "0x20 \<notin> set z" for z w
    proof -
      have "takeWhile (\<lambda>c. c \<noteq> 0x20) (z @ sep @ w) = z @ takeWhile (\<lambda>c. c \<noteq> 0x20) (sep @ w)"
        using that by (intro takeWhile_append2) auto
      then show ?thesis by (simp add: s)
    qed
    from eq have "takeWhile (\<lambda>c. c \<noteq> 0x20) (x @ sep @ y) = takeWhile (\<lambda>c. c \<noteq> 0x20) (y @ sep @ x)"
      by (rule arg_cong)
    moreover from ns have "takeWhile (\<lambda>c. c \<noteq> 0x20) (x @ sep @ y) = x" by (intro tw) blast
    moreover from ns have "takeWhile (\<lambda>c. c \<noteq> 0x20) (y @ sep @ x) = y" by (intro tw) blast
    ultimately have "x = y" by (simp only:)
    with assms(1) show False by blast
  qed
qed

text \<open>
  C2 (as amended). For every input sequence \<open>groupGamesByPlayers\<close> returns, and the
  titles of the groups are the distinct keys \<open>trimmedX + " vs " + trimmedO\<close> in the order
  in which the input first shows them; each group holds, in input order, exactly the
  records whose key is its title, stored with trimmed names; two records of the input
  share a group exactly when their keys are the same string. Two records with the names
  swapped therefore land in different groups whenever the two trimmed names differ and
  have the same length, or differ and contain no space.
\<close>

theorem groupGamesByPlayers_keyed_first_seen:
  "\<exists>groups. groupGamesByPlayers gs = Inr groups
     \<and> map title groups = first_seen [] (map pairing_key gs)
     \<and> (\<forall>G \<in> set groups.
           map unnumbered (data G) = map normalise (filter (\<lambda>g. pairing_key g = title G) gs))
     \<and> (\<forall>g1 \<in> set gs. \<forall>g2 \<in> set gs.
           (\<exists>G \<in> set groups. normalise g1 \<in> unnumbered ` set (data G)
                             \<and> normalise g2 \<in> unnumbered ` set (data G))
           \<longleftrightarrow> pairing_key g1 = pairing_key g2)
     \<and> (\<forall>g1 \<in> set gs. \<forall>g2 \<in> set gs.
           swapped g1 g2
           \<and> trim (nameX (players g1)) \<noteq> trim (nameO (players g1))
           \<and> (length (trim (nameX (players g1))) = length (trim (nameO (players g1)))
              \<or> (0x20 \<notin> set (trim (nameX (players g1))) \<and> 0x20 \<notin> set (trim (nameO (players g1)))))
           \<longrightarrow> pairing_key g1 \<noteq> pairing_key g2)"
proof -
  from groups_props[of gs] obtain groups where
    g: "groupGamesByPlayers gs = Inr groups"
    and t: "map title groups = first_seen [] (map pairing_key gs)"
    and e: "\<forall>G \<in> set groups. \<exists>first rest.
           members gs (title G) = first # rest \<and> G = expected_group (title G) first rest"
    by blast
  have d: "\<forall>G \<in> set groups.
           map unnumbered (data G) = map normalise (filter (\<lambda>g. pairing_key g = title G) gs)"
    using e group_members by blast
  have same: "\<forall>g1 \<in> set gs. \<forall>g2 \<in> set gs.
           (\<exists>G \<in> set groups. normalise g1 \<in> unnumbered ` set (data G)
                             \<and> normalise g2 \<in> unnumbered ` set (data G))
           \<longleftrightarrow> pairing_key g1 = pairing_key g2"
  proof (intro ballI iffI)
    fix g1 g2 assume "g1 \<in> set gs" "g2 \<in> set gs"
    assume "\<exists>G \<in> set groups. normalise g1 \<in> unnumbered ` set (data G)
                             \<and> normalise g2 \<in> unnumbered ` set (data G)"
    then obtain G where G: "G \<in> set groups" "normalise g1 \<in> unnumbered ` set (data G)"
      "normalise g2 \<in> unnumbered ` set (data G)" by blast
    from d G(1) have "set (map unnumbered (data G)) = set (members gs (title G))"
      by (simp add: members_def)
    with G have "normalise g1 \<in> set (members gs (title G))" "normalise g2 \<in> set (members gs (title G))"
      by auto
    then have "pairing_key (normalise g1) = title G" "pairing_key (normalise g2) = title G"
      by (auto dest: members_key)
    then show "pairing_key g1 = pairing_key g2" by (simp add: pairing_key_normalise)
  next
    fix g1 g2 assume in1: "g1 \<in> set gs" and in2: "g2 \<in> set gs"
    assume k: "pairing_key g1 = pairing_key g2"
    from in1 have "pairing_key g1 \<in> set (first_seen [] (map pairing_key gs))"
      by (simp add: first_seen_set)
    with t have "pairing_key g1 \<in> title ` set groups" by (metis set_map)
    then obtain G where G: "G \<in> set groups" "title G = pairing_key g1" by auto
    from d G(1) have "set (map unnumbered (data G)) = set (members gs (title G))"
      by (simp add: members_def)
    moreover from in1 in2 k G(2) have "normalise g1 \<in> set (members gs (title G))"
      "normalise g2 \<in> set (members gs (title G))" by (auto simp: members_def)
    ultimately have "normalise g1 \<in> unnumbered ` set (data G) \<and> normalise g2 \<in> unnumbered ` set (data G)"
      by auto
    with G(1) show "\<exists>G \<in> set groups. normalise g1 \<in> unnumbered ` set (data G)
                             \<and> normalise g2 \<in> unnumbered ` set (data G)" by blast
  qed
  have sw: "\<forall>g1 \<in> set gs. \<forall>g2 \<in> set gs.
           swapped g1 g2
           \<and> trim (nameX (players g1)) \<noteq> trim (nameO (players g1))
           \<and> (length (trim (nameX (players g1))) = length (trim (nameO (players g1)))
              \<or> (0x20 \<notin> set (trim (nameX (players g1))) \<and> 0x20 \<notin> set (trim (nameO (players g1)))))
           \<longrightarrow> pairing_key g1 \<noteq> pairing_key g2"
  proof (intro ballI impI)
    fix g1 g2 :: game
    let ?x = "trim (nameX (players g1))" and ?y = "trim (nameO (players g1))"
    assume "swapped g1 g2 \<and> ?x \<noteq> ?y
           \<and> (length ?x = length ?y \<or> (0x20 \<notin> set ?x \<and> 0x20 \<notin> set ?y))"
    then have s: "swapped g1 g2" and ne: "?x \<noteq> ?y"
      and c: "length ?x = length ?y \<or> (0x20 \<notin> set ?x \<and> 0x20 \<notin> set ?y)" by blast+
    from ne c have "?x @ sep @ ?y \<noteq> ?y @ sep @ ?x" by (rule swap_keys_differ)
    moreover have "pairing_key g1 = ?x @ sep @ ?y" by (simp add: pairing_key_def)
    moreover from s have "pairing_key g2 = ?y @ sep @ ?x" by (simp add: pairing_key_def swapped_def)
    ultimately show "pairing_key g1 \<noteq> pairing_key g2" by metis
  qed
  from g t d same sw show ?thesis by blast
qed

text \<open>
  The stored names \<open>a\<close> and \<open>a vs a\<close>, and the same two names swapped, give the one
  key \<open>a vs a vs a\<close>: both records land in the same group.
\<close>

theorem groupGamesByPlayers_swapped_same_group:
  "groupGamesByPlayers
     [example_game ''a'' ''a vs a'' ''Draw'' draw_board 1700000002000,
      example_game ''a vs a'' ''a'' ''Draw'' draw_board 1700000001000]
   = Inr [\<lparr>title = lit ''a vs a vs a'',
           data = [example_numbered ''a'' ''a vs a'' ''Draw'' draw_board 1700000002000 ''Game 1'',
                   example_numbered ''a vs a'' ''a'' ''Draw'' draw_board 1700000001000 ''Game 2''],
           stats = [(lit ''a'', 0), (lit ''a vs a'', 0), (lit ''Draws'', 2)]\<rparr>]"
  by (simp add: eval_simps)

text \<open>
  The theorem at the history Ann-Bo, Ann-Bo, Bo-Ann: two groups in first-seen order, and
  the first and the third record, whose names are swapped, have different keys.
\<close>

theorem groupGamesByPlayers_keyed_first_seen_witness:
  "swapped (example_game ''Ann'' ''Bo'' ''Ann wins'' x_wins_board 1700000003000)
           (example_game ''Bo'' ''Ann'' ''Bo wins'' x_wins_board 1700000001000)
   \<and> pairing_key (example_game ''Ann'' ''Bo'' ''Ann wins'' x_wins_board 1700000003000)
       \<noteq> pairing_key (example_game ''Bo'' ''Ann'' ''Bo wins'' x_wins_board 1700000001000)
   \<and> (\<exists>groups. groupGamesByPlayers ann_bo_history = Inr groups
         \<and> map title groups = [lit ''Ann vs Bo'', lit ''Bo vs Ann''])"
proof -
  let ?g1 = "example_game ''Ann'' ''Bo'' ''Ann wins'' x_wins_board 1700000003000"
  let ?g2 = "example_game ''Bo'' ''Ann'' ''Bo wins'' x_wins_board 1700000001000"
  have in1: "?g1 \<in> set ann_bo_history" and in2: "?g2 \<in> set ann_bo_history"
    by (simp_all add: ann_bo_history_def)
  have sw: "swapped ?g1 ?g2"
    by (simp add: swapped_def example_game_def)
  have ne: "trim (nameX (players ?g1)) \<noteq> trim (nameO (players ?g1))"
    by (simp add: example_game_def lit_def trim_def is_ws_def)
  have ns: "0x20 \<notin> set (trim (nameX (players ?g1))) \<and> 0x20 \<notin> set (trim (nameO (players ?g1)))"
    by (simp add: example_game_def lit_def trim_def is_ws_def)
  have keys: "first_seen [] (map pairing_key ann_bo_history) = [lit ''Ann vs Bo'', lit ''Bo vs Ann'']"
    by (simp add: ann_bo_history_def example_game_def pairing_key_def lit_def trim_def is_ws_def
        sep_def)
  from groupGamesByPlayers_keyed_first_seen[of ann_bo_history] obtain groups where
    g: "groupGamesByPlayers ann_bo_history = Inr groups"
    and t: "map title groups = first_seen [] (map pairing_key ann_bo_history)"
    and s: "\<forall>g1 \<in> set ann_bo_history. \<forall>g2 \<in> set ann_bo_history.
           swapped g1 g2
           \<and> trim (nameX (players g1)) \<noteq> trim (nameO (players g1))
           \<and> (length (trim (nameX (players g1))) = length (trim (nameO (players g1)))
              \<or> (0x20 \<notin> set (trim (nameX (players g1))) \<and> 0x20 \<notin> set (trim (nameO (players g1)))))
           \<longrightarrow> pairing_key g1 \<noteq> pairing_key g2"
    by blast
  from s in1 in2 sw ne ns have "pairing_key ?g1 \<noteq> pairing_key ?g2" by blast
  moreover from g t keys have "\<exists>groups. groupGamesByPlayers ann_bo_history = Inr groups
         \<and> map title groups = [lit ''Ann vs Bo'', lit ''Bo vs Ann'']" by simp
  ultimately show ?thesis using sw by blast
qed

lemma mset_by_key:
  "distinct ks \<Longrightarrow>
   mset (concat (map (\<lambda>k. filter (\<lambda>x. f x = k) xs) ks)) = mset (filter (\<lambda>x. f x \<in> set ks) xs)"
proof (induction ks)
  case Nil
  show ?case by simp
next
  case (Cons k ks)
  then have k: "k \<notin> set ks" and IH: "mset (concat (map (\<lambda>k. filter (\<lambda>x. f x = k) xs) ks))
      = mset (filter (\<lambda>x. f x \<in> set ks) xs)" by simp_all
  have "mset (filter (\<lambda>x. f x = k) xs) + mset (filter (\<lambda>x. f x \<in> set ks) xs)
      = mset (filter (\<lambda>x. f x \<in> set (k # ks)) xs)"
    using k by (induction xs) auto
  with IH show ?case by simp
qed

lemma groups_concat:
  assumes t: "map title groups = first_seen [] (map pairing_key gs)"
    and d: "\<forall>G \<in> set groups.
           map unnumbered (data G) = map normalise (filter (\<lambda>g. pairing_key g = title G) gs)"
  shows "mset (concat (map (\<lambda>G. map unnumbered (data G)) groups)) = mset (map normalise gs)"
proof -
  let ?ks = "first_seen [] (map pairing_key gs)"
  have "map (\<lambda>G. map unnumbered (data G)) groups
      = map (\<lambda>G. map normalise (filter (\<lambda>g. pairing_key g = title G) gs)) groups"
    using d by (intro map_cong refl) blast
  also have "\<dots> = map (\<lambda>k. map normalise (filter (\<lambda>g. pairing_key g = k) gs)) (map title groups)"
    by (simp add: o_def)
  also have "\<dots> = map (map normalise) (map (\<lambda>k. filter (\<lambda>g. pairing_key g = k) gs) ?ks)"
    by (simp add: t o_def)
  finally have "concat (map (\<lambda>G. map unnumbered (data G)) groups)
      = map normalise (concat (map (\<lambda>k. filter (\<lambda>g. pairing_key g = k) gs) ?ks))"
    by (simp only: map_concat)
  then have "mset (concat (map (\<lambda>G. map unnumbered (data G)) groups))
      = image_mset normalise (mset (concat (map (\<lambda>k. filter (\<lambda>g. pairing_key g = k) gs) ?ks)))"
    by simp
  also have "\<dots> = image_mset normalise (mset (filter (\<lambda>g. pairing_key g \<in> set ?ks) gs))"
    by (simp only: mset_by_key[OF first_seen_distinct])
  also have "filter (\<lambda>g. pairing_key g \<in> set ?ks) gs = gs"
    by (simp add: first_seen_set)
  finally show ?thesis by simp
qed

text \<open>
  C9. For every input sequence, grouping neither drops nor duplicates a record: the
  groups have distinct titles, every record's key is the title of a group, each group
  holds in input order exactly the input records with its key (with trimmed names, and
  apart from the added \<open>gameNumber\<close>), the records of all groups together are, as a
  multiset, the input records with trimmed names, and the sizes of the groups add up to
  the length of the input.
\<close>

theorem groupGamesByPlayers_partition:
  "\<exists>groups. groupGamesByPlayers gs = Inr groups
     \<and> distinct (map title groups)
     \<and> pairing_key ` set gs = title ` set groups
     \<and> (\<forall>G \<in> set groups.
           map unnumbered (data G) = map normalise (filter (\<lambda>g. pairing_key g = title G) gs))
     \<and> mset (concat (map (\<lambda>G. map unnumbered (data G)) groups)) = mset (map normalise gs)
     \<and> sum_list (map (\<lambda>G. length (data G)) groups) = length gs"
proof -
  from groups_props[of gs] obtain groups where
    g: "groupGamesByPlayers gs = Inr groups"
    and t: "map title groups = first_seen [] (map pairing_key gs)"
    and e: "\<forall>G \<in> set groups. \<exists>first rest.
           members gs (title G) = first # rest \<and> G = expected_group (title G) first rest"
    by blast
  have d: "\<forall>G \<in> set groups.
           map unnumbered (data G) = map normalise (filter (\<lambda>g. pairing_key g = title G) gs)"
    using e group_members by blast
  from t have dist: "distinct (map title groups)" by (simp add: first_seen_distinct)
  from t have "set (map title groups) = set (first_seen [] (map pairing_key gs))" by simp
  then have keys: "pairing_key ` set gs = title ` set groups" by (simp add: first_seen_set)
  from t d have m: "mset (concat (map (\<lambda>G. map unnumbered (data G)) groups)) = mset (map normalise gs)"
    by (rule groups_concat)
  have "sum_list (map (\<lambda>G. length (data G)) groups)
      = length (concat (map (\<lambda>G. map unnumbered (data G)) groups))"
    by (simp add: length_concat o_def)
  also have "\<dots> = size (mset (concat (map (\<lambda>G. map unnumbered (data G)) groups)))"
    by simp
  also have "\<dots> = length gs" by (simp only: m size_mset length_map)
  finally have n: "sum_list (map (\<lambda>G. length (data G)) groups) = length gs" .
  from g dist keys d m n show ?thesis by blast
qed

text \<open>
  The theorem at the history Ann-Bo, Ann-Bo, Bo-Ann: the two groups hold two records
  and one record.
\<close>

theorem groupGamesByPlayers_partition_witness:
  "\<exists>groups. groupGamesByPlayers ann_bo_history = Inr groups
     \<and> title ` set groups = {lit ''Ann vs Bo'', lit ''Bo vs Ann''}
     \<and> sum_list (map (\<lambda>G. length (data G)) groups) = 3"
proof -
  have keys: "pairing_key ` set ann_bo_history = {lit ''Ann vs Bo'', lit ''Bo vs Ann''}"
    by (simp add: ann_bo_history_def example_game_def pairing_key_def lit_def trim_def is_ws_def
        sep_def)
  have len: "length ann_bo_history = 3" by (simp add: ann_bo_history_def)
  from groupGamesByPlayers_partition[of ann_bo_history] obtain groups where
    "groupGamesByPlayers ann_bo_history = Inr groups"
    "pairing_key ` set ann_bo_history = title ` set groups"
    "sum_list (map (\<lambda>G. length (data G)) groups) = length ann_bo_history"
    by blast
  with keys len show ?thesis by auto
qed

section \<open>Properties of the stats\<close>

lemma ann_bo_groups:
  "groupGamesByPlayers ann_bo_history =
       Inr [\<lparr>title = lit ''Ann vs Bo'',
             data = [example_numbered ''Ann'' ''Bo'' ''Ann wins'' x_wins_board 1700000003000 ''Game 1'',
                     example_numbered ''Ann'' ''Bo'' ''Draw'' draw_board 1700000002000 ''Game 2''],
             stats = [(lit ''Ann'', 1), (lit ''Bo'', 0), (lit ''Draws'', 1)]\<rparr>,
            \<lparr>title = lit ''Bo vs Ann'',
             data = [example_numbered ''Bo'' ''Ann'' ''Bo wins'' x_wins_board 1700000001000 ''Game 1''],
             stats = [(lit ''Bo'', 1), (lit ''Ann'', 0), (lit ''Draws'', 0)]\<rparr>]"
  by (simp add: ann_bo_history_def eval_simps)

lemma a_a_groups:
  "groupGamesByPlayers a_a_history =
       Inr [\<lparr>title = lit ''A vs A'',
             data = [example_numbered ''A'' ''A'' ''A wins'' x_wins_board 1700000003000 ''Game 1'',
                     example_numbered ''A'' ''A'' ''Draw'' draw_board 1700000002000 ''Game 2''],
             stats = [(lit ''A'', 0), (lit ''Draws'', 1)]\<rparr>]"
  by (simp add: a_a_history_def eval_simps)

lemma stats_expected:
  "stats (expected_group k first rest) =
     object_literal
       [(nameX (players first), length (filter x_win (first # rest))),
        (nameO (players first), length (filter o_win (first # rest))),
        (lit ''Draws'', length (filter drawn (first # rest)))]"
  by (simp add: expected_group_def)

lemma object_literal_distinct3:
  "a \<noteq> b \<Longrightarrow> a \<noteq> c \<Longrightarrow> b \<noteq> c \<Longrightarrow>
   object_literal [(a, x), (b, y), (c, z)] = [(a, x), (b, y), (c, z)]"
  by (simp add: object_literal_def)

lemma object_literal_collide:
  "a = b \<or> a = c \<or> b = c \<Longrightarrow>
   length (object_literal [(a, x), (b, y), (c, z)]) < 3
   \<and> sum_list (map snd (object_literal [(a, x), (b, y), (c, z :: nat)]))
       + (if a = b \<or> a = c then x else 0) + (if b = c then y else 0) = x + y + z"
  by (auto simp: object_literal_def)

lemma group_facts:
  assumes m: "members gs (title G) = first # rest"
    and e: "G = expected_group (title G) first rest"
  shows "first # rest = map normalise (filter (\<lambda>g. pairing_key g = title G) gs)"
    and "map unnumbered (data G) = first # rest"
    and "length (data G) = length (first # rest)"
    and "stats G = object_literal
       [(nameX (players first), length (filter x_win (first # rest))),
        (nameO (players first), length (filter o_win (first # rest))),
        (lit ''Draws'', length (filter drawn (first # rest)))]"
proof -
  from m show "first # rest = map normalise (filter (\<lambda>g. pairing_key g = title G) gs)"
    by (simp add: members_def)
  from e show u: "map unnumbered (data G) = first # rest" by (rule group_data)
  have "length (map unnumbered (data G)) = length (data G)" by simp
  with u show "length (data G) = length (first # rest)" by (simp only:)
  have "stats G = stats (expected_group (title G) first rest)" using e by simp
  then show "stats G = object_literal
       [(nameX (players first), length (filter x_win (first # rest))),
        (nameO (players first), length (filter o_win (first # rest))),
        (lit ''Draws'', length (filter drawn (first # rest)))]"
    by (simp only: stats_expected)
qed

text \<open>
  C3 (as amended). For every group, with \<open>first\<close> its first record as stored (trimmed
  names): the stats object is the object literal with the keys \<open>first\<close>'s X name,
  \<open>first\<close>'s O name and \<open>Draws\<close>, written in this order, a later key overwriting an
  equal earlier one. The values are the numbers of the group's records whose result is
  the record's own X name followed by \<open>wins\<close>; whose result is not that but the
  record's own O name followed by \<open>wins\<close>; and all others. When the three keys are
  pairwise distinct, the stats are these three counters under these three keys. On the
  example history the output is the two groups of the specification.
\<close>

theorem groupGamesByPlayers_stats:
  "(\<exists>groups. groupGamesByPlayers gs = Inr groups \<and>
      (\<forall>G \<in> set groups. \<exists>first rest.
          first # rest = map normalise (filter (\<lambda>g. pairing_key g = title G) gs)
        \<and> map unnumbered (data G) = first # rest
        \<and> stats G = object_literal
             [(nameX (players first), length (filter x_win (first # rest))),
              (nameO (players first), length (filter o_win (first # rest))),
              (lit ''Draws'', length (filter drawn (first # rest)))]
        \<and> (nameX (players first) \<noteq> nameO (players first)
             \<and> nameX (players first) \<noteq> lit ''Draws'' \<and> nameO (players first) \<noteq> lit ''Draws''
           \<longrightarrow> stats G =
             [(nameX (players first), length (filter x_win (first # rest))),
              (nameO (players first), length (filter o_win (first # rest))),
              (lit ''Draws'', length (filter drawn (first # rest)))])))
   \<and> groupGamesByPlayers ann_bo_history =
       Inr [\<lparr>title = lit ''Ann vs Bo'',
             data = [example_numbered ''Ann'' ''Bo'' ''Ann wins'' x_wins_board 1700000003000 ''Game 1'',
                     example_numbered ''Ann'' ''Bo'' ''Draw'' draw_board 1700000002000 ''Game 2''],
             stats = [(lit ''Ann'', 1), (lit ''Bo'', 0), (lit ''Draws'', 1)]\<rparr>,
            \<lparr>title = lit ''Bo vs Ann'',
             data = [example_numbered ''Bo'' ''Ann'' ''Bo wins'' x_wins_board 1700000001000 ''Game 1''],
             stats = [(lit ''Bo'', 1), (lit ''Ann'', 0), (lit ''Draws'', 0)]\<rparr>]"
proof (rule conjI)
  let ?counts = "\<lambda>first rest.
     [(nameX (players first), length (filter x_win (first # rest))),
      (nameO (players first), length (filter o_win (first # rest))),
      (lit ''Draws'', length (filter drawn (first # rest)))]"
  let ?P = "\<lambda>G first rest.
      first # rest = map normalise (filter (\<lambda>g. pairing_key g = title G) gs)
    \<and> map unnumbered (data G) = first # rest
    \<and> stats G = object_literal (?counts first rest)
    \<and> (nameX (players first) \<noteq> nameO (players first)
         \<and> nameX (players first) \<noteq> lit ''Draws'' \<and> nameO (players first) \<noteq> lit ''Draws''
       \<longrightarrow> stats G = ?counts first rest)"
  from groups_props[of gs] obtain groups where
    g: "groupGamesByPlayers gs = Inr groups"
    and e: "\<forall>G \<in> set groups. \<exists>first rest.
           members gs (title G) = first # rest \<and> G = expected_group (title G) first rest"
    by blast
  have "\<forall>G \<in> set groups. \<exists>first rest. ?P G first rest"
  proof
    fix G assume "G \<in> set groups"
    with e obtain first rest where m: "members gs (title G) = first # rest"
      and x: "G = expected_group (title G) first rest" by blast
    note f = group_facts[OF m x]
    have "nameX (players first) \<noteq> nameO (players first)
             \<and> nameX (players first) \<noteq> lit ''Draws'' \<and> nameO (players first) \<noteq> lit ''Draws''
           \<longrightarrow> stats G = ?counts first rest"
    proof
      assume "nameX (players first) \<noteq> nameO (players first)
             \<and> nameX (players first) \<noteq> lit ''Draws'' \<and> nameO (players first) \<noteq> lit ''Draws''"
      then have "object_literal (?counts first rest) = ?counts first rest"
        by (intro object_literal_distinct3) blast+
      with f(4) show "stats G = ?counts first rest" by (rule trans)
    qed
    with f(1) f(2) f(4) have c: "?P G first rest" by simp
    show "\<exists>first rest. ?P G first rest" by (intro exI) (rule c)
  qed
  then have a: "\<forall>G \<in> set groups. \<exists>first rest. ?P G first rest" .
  show "\<exists>groups. groupGamesByPlayers gs = Inr groups \<and>
      (\<forall>G \<in> set groups. \<exists>first rest. ?P G first rest)"
    by (intro exI conjI) (rule g, rule a)
next
  show "groupGamesByPlayers ann_bo_history =
       Inr [\<lparr>title = lit ''Ann vs Bo'',
             data = [example_numbered ''Ann'' ''Bo'' ''Ann wins'' x_wins_board 1700000003000 ''Game 1'',
                     example_numbered ''Ann'' ''Bo'' ''Draw'' draw_board 1700000002000 ''Game 2''],
             stats = [(lit ''Ann'', 1), (lit ''Bo'', 0), (lit ''Draws'', 1)]\<rparr>,
            \<lparr>title = lit ''Bo vs Ann'',
             data = [example_numbered ''Bo'' ''Ann'' ''Bo wins'' x_wins_board 1700000001000 ''Game 1''],
             stats = [(lit ''Bo'', 1), (lit ''Ann'', 0), (lit ''Draws'', 0)]\<rparr>]"
    by (simp add: ann_bo_history_def eval_simps)
qed

text \<open>
  Two players both called \<open>A\<close>, and X has won: the only counter under the key \<open>A\<close> is
  the O counter, which is 0, although the one record's result is \<open>A wins\<close>.
\<close>

theorem groupGamesByPlayers_stats_same_names:
  "groupGamesByPlayers [example_game ''A'' ''A'' ''A wins'' x_wins_board 1700000003000]
   = Inr [\<lparr>title = lit ''A vs A'',
           data = [example_numbered ''A'' ''A'' ''A wins'' x_wins_board 1700000003000 ''Game 1''],
           stats = [(lit ''A'', 0), (lit ''Draws'', 0)]\<rparr>]"
  by (simp add: eval_simps)

text \<open>
  The theorem at the example history: in the group of Ann and Bo the three keys are
  pairwise distinct, and the stats are the three counters of its two records.
\<close>

theorem groupGamesByPlayers_stats_witness:
  "lit ''Ann'' \<noteq> lit ''Bo'' \<and> lit ''Ann'' \<noteq> lit ''Draws'' \<and> lit ''Bo'' \<noteq> lit ''Draws''
   \<and> [(lit ''Ann'', length (filter x_win
          [example_game ''Ann'' ''Bo'' ''Ann wins'' x_wins_board 1700000003000,
           example_game ''Ann'' ''Bo'' ''Draw'' draw_board 1700000002000])),
       (lit ''Bo'', length (filter o_win
          [example_game ''Ann'' ''Bo'' ''Ann wins'' x_wins_board 1700000003000,
           example_game ''Ann'' ''Bo'' ''Draw'' draw_board 1700000002000])),
       (lit ''Draws'', length (filter drawn
          [example_game ''Ann'' ''Bo'' ''Ann wins'' x_wins_board 1700000003000,
           example_game ''Ann'' ''Bo'' ''Draw'' draw_board 1700000002000]))]
     = [(lit ''Ann'', 1), (lit ''Bo'', 0), (lit ''Draws'', 1)]"
proof -
  let ?r1 = "example_game ''Ann'' ''Bo'' ''Ann wins'' x_wins_board 1700000003000"
  let ?r2 = "example_game ''Ann'' ''Bo'' ''Draw'' draw_board 1700000002000"
  let ?G = "\<lparr>title = lit ''Ann vs Bo'',
             data = [example_numbered ''Ann'' ''Bo'' ''Ann wins'' x_wins_board 1700000003000 ''Game 1'',
                     example_numbered ''Ann'' ''Bo'' ''Draw'' draw_board 1700000002000 ''Game 2''],
             stats = [(lit ''Ann'', 1), (lit ''Bo'', 0), (lit ''Draws'', 1)]\<rparr>"
  let ?H = "\<lparr>title = lit ''Bo vs Ann'',
             data = [example_numbered ''Bo'' ''Ann'' ''Bo wins'' x_wins_board 1700000001000 ''Game 1''],
             stats = [(lit ''Bo'', 1), (lit ''Ann'', 0), (lit ''Draws'', 0)]\<rparr>"
  note inst = groupGamesByPlayers_stats[of ann_bo_history]
  from inst have out: "groupGamesByPlayers ann_bo_history = Inr [?G, ?H]" by (rule conjunct2)
  let ?F = "\<lambda>G first rest.
          first # rest = map normalise (filter (\<lambda>g. pairing_key g = title G) ann_bo_history)
        \<and> map unnumbered (data G) = first # rest
        \<and> stats G = object_literal
             [(nameX (players first), length (filter x_win (first # rest))),
              (nameO (players first), length (filter o_win (first # rest))),
              (lit ''Draws'', length (filter drawn (first # rest)))]
        \<and> (nameX (players first) \<noteq> nameO (players first)
             \<and> nameX (players first) \<noteq> lit ''Draws'' \<and> nameO (players first) \<noteq> lit ''Draws''
           \<longrightarrow> stats G =
             [(nameX (players first), length (filter x_win (first # rest))),
              (nameO (players first), length (filter o_win (first # rest))),
              (lit ''Draws'', length (filter drawn (first # rest)))])"
  from inst have "\<exists>groups. groupGamesByPlayers ann_bo_history = Inr groups
      \<and> (\<forall>G \<in> set groups. \<exists>first rest. ?F G first rest)"
    by (rule conjunct1)
  then obtain groups where g: "groupGamesByPlayers ann_bo_history = Inr groups"
    and p: "\<forall>G \<in> set groups. \<exists>first rest. ?F G first rest"
    by (elim exE conjE)
  from g out have "groups = [?G, ?H]" by (simp only: sum.inject)
  then have "?G \<in> set groups" by (simp only: list.set insertI1)
  with p have "\<exists>first rest. ?F ?G first rest" by (rule bspec)
  then obtain first rest where u: "map unnumbered (data ?G) = first # rest"
    and i: "nameX (players first) \<noteq> nameO (players first)
             \<and> nameX (players first) \<noteq> lit ''Draws'' \<and> nameO (players first) \<noteq> lit ''Draws''
           \<longrightarrow> stats ?G =
             [(nameX (players first), length (filter x_win (first # rest))),
              (nameO (players first), length (filter o_win (first # rest))),
              (lit ''Draws'', length (filter drawn (first # rest)))]"
    by (elim exE conjE)
  have "map unnumbered (data ?G) = [?r1, ?r2]"
    by (simp add: unnumbered_def example_numbered_def example_game_def)
  with u have first: "first = ?r1" and rest: "rest = [?r2]" by simp_all
  have names: "nameX (players ?r1) = lit ''Ann''" "nameO (players ?r1) = lit ''Bo''"
    by (simp_all add: example_game_def)
  have d: "lit ''Ann'' \<noteq> lit ''Bo'' \<and> lit ''Ann'' \<noteq> lit ''Draws'' \<and> lit ''Bo'' \<noteq> lit ''Draws''"
    by (simp add: lit_def)
  from i d have "stats ?G =
             [(lit ''Ann'', length (filter x_win [?r1, ?r2])),
              (lit ''Bo'', length (filter o_win [?r1, ?r2])),
              (lit ''Draws'', length (filter drawn [?r1, ?r2]))]"
    unfolding first rest names by blast
  then have "[(lit ''Ann'', length (filter x_win [?r1, ?r2])),
              (lit ''Bo'', length (filter o_win [?r1, ?r2])),
              (lit ''Draws'', length (filter drawn [?r1, ?r2]))]
           = [(lit ''Ann'', 1), (lit ''Bo'', 0), (lit ''Draws'', 1)]"
    by simp
  with d show ?thesis by blast
qed

text \<open>
  C10 (as amended). For every group, with \<open>first\<close> its first record: when \<open>first\<close>'s X
  name, its O name and \<open>Draws\<close> are pairwise distinct, the values of the stats add up to
  the number of records of the group. When two of the three keys coincide, the stats
  object has fewer than three entries and its values add up to the number of records
  minus the counters that were overwritten: the X counter when the X name is the O name
  or is \<open>Draws\<close>, the O counter when the O name is \<open>Draws\<close>. So in a group with
  colliding keys the sum is the number of records exactly when the overwritten counters
  are zero, and falls short of it otherwise. Each kind of collision does break the
  accounting on some input: players both called \<open>A\<close>, a player X called \<open>Draws\<close>, a
  player O called \<open>Draws\<close>, each time with one game that the player won.
\<close>

theorem groupGamesByPlayers_stats_sum:
  "(\<exists>groups. groupGamesByPlayers gs = Inr groups \<and>
      (\<forall>G \<in> set groups. \<exists>first rest.
          map unnumbered (data G) = first # rest
        \<and> (nameX (players first) \<noteq> nameO (players first)
             \<and> nameX (players first) \<noteq> lit ''Draws'' \<and> nameO (players first) \<noteq> lit ''Draws''
           \<longrightarrow> sum_list (map snd (stats G)) = length (data G))
        \<and> (nameX (players first) = nameO (players first)
             \<or> nameX (players first) = lit ''Draws'' \<or> nameO (players first) = lit ''Draws''
           \<longrightarrow> length (stats G) < 3
             \<and> sum_list (map snd (stats G))
                 + (if nameX (players first) = nameO (players first)
                       \<or> nameX (players first) = lit ''Draws''
                    then length (filter x_win (first # rest)) else 0)
                 + (if nameO (players first) = lit ''Draws''
                    then length (filter o_win (first # rest)) else 0)
               = length (data G)
             \<and> ((sum_list (map snd (stats G)) = length (data G))
                 = ((if nameX (players first) = nameO (players first)
                        \<or> nameX (players first) = lit ''Draws''
                     then length (filter x_win (first # rest)) else 0)
                    + (if nameO (players first) = lit ''Draws''
                       then length (filter o_win (first # rest)) else 0) = 0)))))
   \<and> (\<exists>G. groupGamesByPlayers [example_game ''A'' ''A'' ''A wins'' x_wins_board 1700000003000]
             = Inr [G]
          \<and> sum_list (map snd (stats G)) = 0 \<and> length (data G) = 1)
   \<and> (\<exists>G. groupGamesByPlayers [example_game ''Draws'' ''Bo'' ''Draws wins'' x_wins_board 1700000003000]
             = Inr [G]
          \<and> sum_list (map snd (stats G)) = 0 \<and> length (data G) = 1)
   \<and> (\<exists>G. groupGamesByPlayers [example_game ''Ann'' ''Draws'' ''Draws wins'' o_wins_board 1700000003000]
             = Inr [G]
          \<and> sum_list (map snd (stats G)) = 0 \<and> length (data G) = 1)"
proof (intro conjI)
  let ?lost = "\<lambda>first rest.
      (if nameX (players first) = nameO (players first) \<or> nameX (players first) = lit ''Draws''
       then length (filter x_win (first # rest)) else 0)
    + (if nameO (players first) = lit ''Draws''
       then length (filter o_win (first # rest)) else 0)"
  let ?P = "\<lambda>G first rest.
          map unnumbered (data G) = first # rest
        \<and> (nameX (players first) \<noteq> nameO (players first)
             \<and> nameX (players first) \<noteq> lit ''Draws'' \<and> nameO (players first) \<noteq> lit ''Draws''
           \<longrightarrow> sum_list (map snd (stats G)) = length (data G))
        \<and> (nameX (players first) = nameO (players first)
             \<or> nameX (players first) = lit ''Draws'' \<or> nameO (players first) = lit ''Draws''
           \<longrightarrow> length (stats G) < 3
             \<and> sum_list (map snd (stats G))
                 + (if nameX (players first) = nameO (players first)
                       \<or> nameX (players first) = lit ''Draws''
                    then length (filter x_win (first # rest)) else 0)
                 + (if nameO (players first) = lit ''Draws''
                    then length (filter o_win (first # rest)) else 0)
               = length (data G)
             \<and> ((sum_list (map snd (stats G)) = length (data G)) = (?lost first rest = 0)))"
  from groups_props[of gs] obtain groups where
    g: "groupGamesByPlayers gs = Inr groups"
    and e: "\<forall>G \<in> set groups. \<exists>first rest.
           members gs (title G) = first # rest \<and> G = expected_group (title G) first rest"
    by blast
  have a: "\<forall>G \<in> set groups. \<exists>first rest. ?P G first rest"
  proof
    fix G assume "G \<in> set groups"
    with e obtain first rest where m: "members gs (title G) = first # rest"
      and x: "G = expected_group (title G) first rest" by blast
    note f = group_facts[OF m x]
    let ?x = "length (filter x_win (first # rest))"
    let ?o = "length (filter o_win (first # rest))"
    let ?d = "length (filter drawn (first # rest))"
    have total: "?x + ?o + ?d = length (data G)"
      using kinds_partition[of "first # rest"] f(3) by (simp only:)
    have c1: "nameX (players first) \<noteq> nameO (players first)
             \<and> nameX (players first) \<noteq> lit ''Draws'' \<and> nameO (players first) \<noteq> lit ''Draws''
           \<longrightarrow> sum_list (map snd (stats G)) = length (data G)"
    proof
      assume "nameX (players first) \<noteq> nameO (players first)
             \<and> nameX (players first) \<noteq> lit ''Draws'' \<and> nameO (players first) \<noteq> lit ''Draws''"
      then have "object_literal [(nameX (players first), ?x), (nameO (players first), ?o),
                   (lit ''Draws'', ?d)]
               = [(nameX (players first), ?x), (nameO (players first), ?o), (lit ''Draws'', ?d)]"
        by (intro object_literal_distinct3) blast+
      with f(4) have "stats G = [(nameX (players first), ?x), (nameO (players first), ?o),
                   (lit ''Draws'', ?d)]" by (rule trans)
      then have "sum_list (map snd (stats G)) = ?x + ?o + ?d" by simp
      with total show "sum_list (map snd (stats G)) = length (data G)" by (simp only:)
    qed
    have c2: "nameX (players first) = nameO (players first)
             \<or> nameX (players first) = lit ''Draws'' \<or> nameO (players first) = lit ''Draws''
           \<longrightarrow> length (stats G) < 3
             \<and> sum_list (map snd (stats G))
                 + (if nameX (players first) = nameO (players first)
                       \<or> nameX (players first) = lit ''Draws''
                    then ?x else 0)
                 + (if nameO (players first) = lit ''Draws'' then ?o else 0)
               = length (data G)
             \<and> ((sum_list (map snd (stats G)) = length (data G)) = (?lost first rest = 0))"
    proof
      assume "nameX (players first) = nameO (players first)
             \<or> nameX (players first) = lit ''Draws'' \<or> nameO (players first) = lit ''Draws''"
      then have "length (object_literal [(nameX (players first), ?x), (nameO (players first), ?o),
                   (lit ''Draws'', ?d)]) < 3
        \<and> sum_list (map snd (object_literal [(nameX (players first), ?x),
              (nameO (players first), ?o), (lit ''Draws'', ?d)]))
            + (if nameX (players first) = nameO (players first)
                  \<or> nameX (players first) = lit ''Draws'' then ?x else 0)
            + (if nameO (players first) = lit ''Draws'' then ?o else 0) = ?x + ?o + ?d"
        by (rule object_literal_collide)
      then have k: "length (stats G) < 3
             \<and> sum_list (map snd (stats G))
                 + (if nameX (players first) = nameO (players first)
                       \<or> nameX (players first) = lit ''Draws''
                    then ?x else 0)
                 + (if nameO (players first) = lit ''Draws'' then ?o else 0)
               = length (data G)"
        by (simp only: f(4) total)
      then have "sum_list (map snd (stats G)) + ?lost first rest = length (data G)"
        by (simp only: add.assoc)
      then have "(sum_list (map snd (stats G)) = length (data G)) = (?lost first rest = 0)"
        by arith
      with k show "length (stats G) < 3
             \<and> sum_list (map snd (stats G))
                 + (if nameX (players first) = nameO (players first)
                       \<or> nameX (players first) = lit ''Draws''
                    then ?x else 0)
                 + (if nameO (players first) = lit ''Draws'' then ?o else 0)
               = length (data G)
             \<and> ((sum_list (map snd (stats G)) = length (data G)) = (?lost first rest = 0))"
        by (intro conjI) (elim conjE, assumption)+
    qed
    from f(2) c1 c2 have c: "?P G first rest" by (intro conjI)
    show "\<exists>first rest. ?P G first rest" by (intro exI) (rule c)
  qed
  show "\<exists>groups. groupGamesByPlayers gs = Inr groups \<and>
      (\<forall>G \<in> set groups. \<exists>first rest. ?P G first rest)"
    by (intro exI conjI) (rule g, rule a)
next
  show "\<exists>G. groupGamesByPlayers [example_game ''A'' ''A'' ''A wins'' x_wins_board 1700000003000]
             = Inr [G]
          \<and> sum_list (map snd (stats G)) = 0 \<and> length (data G) = 1"
    by (simp add: eval_simps)
next
  show "\<exists>G. groupGamesByPlayers [example_game ''Draws'' ''Bo'' ''Draws wins'' x_wins_board 1700000003000]
             = Inr [G]
          \<and> sum_list (map snd (stats G)) = 0 \<and> length (data G) = 1"
    by (simp add: eval_simps)
next
  show "\<exists>G. groupGamesByPlayers [example_game ''Ann'' ''Draws'' ''Draws wins'' o_wins_board 1700000003000]
             = Inr [G]
          \<and> sum_list (map snd (stats G)) = 0 \<and> length (data G) = 1"
    by (simp add: eval_simps)
qed

text \<open>
  Two players both called \<open>A\<close> and one drawn game: the keys of the X and the O counter
  collide, yet the values of the stats add up to the number of records, since the
  overwritten X counter is zero.
\<close>

theorem groupGamesByPlayers_stats_sum_collision_keeps_sum:
  "groupGamesByPlayers [example_game ''A'' ''A'' ''Draw'' draw_board 1700000003000]
     = Inr [\<lparr>title = lit ''A vs A'',
             data = [example_numbered ''A'' ''A'' ''Draw'' draw_board 1700000003000 ''Game 1''],
             stats = [(lit ''A'', 0), (lit ''Draws'', 1)]\<rparr>]
   \<and> nameX (players (example_game ''A'' ''A'' ''Draw'' draw_board 1700000003000))
       = nameO (players (example_game ''A'' ''A'' ''Draw'' draw_board 1700000003000))
   \<and> sum_list (map snd [(lit ''A'', 0 :: nat), (lit ''Draws'', 1)])
       = length [example_numbered ''A'' ''A'' ''Draw'' draw_board 1700000003000 ''Game 1'']"
  by (simp add: eval_simps)

text \<open>
  The theorem at two histories. In the example history the group of Ann and Bo has
  pairwise distinct keys, and its stats add up to its two records. In the history of
  two games between two players both called \<open>A\<close>, one won by X and one drawn, the keys
  collide: the stats have two entries and add up to one, the two records minus the one
  win of the overwritten X counter.
\<close>

theorem groupGamesByPlayers_stats_sum_witness:
  "lit ''Ann'' \<noteq> lit ''Bo'' \<and> lit ''Ann'' \<noteq> lit ''Draws'' \<and> lit ''Bo'' \<noteq> lit ''Draws''
   \<and> (\<exists>G H. groupGamesByPlayers ann_bo_history = Inr [G, H]
          \<and> nameX (players (unnumbered (data G ! 0))) = lit ''Ann''
          \<and> nameO (players (unnumbered (data G ! 0))) = lit ''Bo''
          \<and> sum_list (map snd (stats G)) = length (data G)
          \<and> length (data G) = 2)
   \<and> (\<exists>G. groupGamesByPlayers a_a_history = Inr [G]
          \<and> nameX (players (unnumbered (data G ! 0))) = nameO (players (unnumbered (data G ! 0)))
          \<and> length (stats G) < 3
          \<and> sum_list (map snd (stats G)) + 1 = length (data G)
          \<and> sum_list (map snd (stats G)) \<noteq> length (data G)
          \<and> length (data G) = 2)"
proof -
  let ?F = "\<lambda>G first rest.
          map unnumbered (data G) = first # rest
        \<and> (nameX (players first) \<noteq> nameO (players first)
             \<and> nameX (players first) \<noteq> lit ''Draws'' \<and> nameO (players first) \<noteq> lit ''Draws''
           \<longrightarrow> sum_list (map snd (stats G)) = length (data G))
        \<and> (nameX (players first) = nameO (players first)
             \<or> nameX (players first) = lit ''Draws'' \<or> nameO (players first) = lit ''Draws''
           \<longrightarrow> length (stats G) < 3
             \<and> sum_list (map snd (stats G))
                 + (if nameX (players first) = nameO (players first)
                       \<or> nameX (players first) = lit ''Draws''
                    then length (filter x_win (first # rest)) else 0)
                 + (if nameO (players first) = lit ''Draws''
                    then length (filter o_win (first # rest)) else 0)
               = length (data G)
             \<and> ((sum_list (map snd (stats G)) = length (data G))
                 = ((if nameX (players first) = nameO (players first)
                        \<or> nameX (players first) = lit ''Draws''
                     then length (filter x_win (first # rest)) else 0)
                    + (if nameO (players first) = lit ''Draws''
                       then length (filter o_win (first # rest)) else 0) = 0)))"
  have d: "lit ''Ann'' \<noteq> lit ''Bo'' \<and> lit ''Ann'' \<noteq> lit ''Draws'' \<and> lit ''Bo'' \<noteq> lit ''Draws''"
    by (simp add: lit_def)

  let ?r1 = "example_game ''Ann'' ''Bo'' ''Ann wins'' x_wins_board 1700000003000"
  let ?r2 = "example_game ''Ann'' ''Bo'' ''Draw'' draw_board 1700000002000"
  let ?G = "\<lparr>title = lit ''Ann vs Bo'',
             data = [example_numbered ''Ann'' ''Bo'' ''Ann wins'' x_wins_board 1700000003000 ''Game 1'',
                     example_numbered ''Ann'' ''Bo'' ''Draw'' draw_board 1700000002000 ''Game 2''],
             stats = [(lit ''Ann'', 1), (lit ''Bo'', 0), (lit ''Draws'', 1)]\<rparr>"
  let ?H = "\<lparr>title = lit ''Bo vs Ann'',
             data = [example_numbered ''Bo'' ''Ann'' ''Bo wins'' x_wins_board 1700000001000 ''Game 1''],
             stats = [(lit ''Bo'', 1), (lit ''Ann'', 0), (lit ''Draws'', 0)]\<rparr>"
  have out1: "groupGamesByPlayers ann_bo_history = Inr [?G, ?H]" by (rule ann_bo_groups)
  from groupGamesByPlayers_stats_sum[of ann_bo_history]
  have "\<exists>groups. groupGamesByPlayers ann_bo_history = Inr groups
      \<and> (\<forall>G \<in> set groups. \<exists>first rest. ?F G first rest)"
    by (rule conjunct1)
  then obtain groups1 where g1: "groupGamesByPlayers ann_bo_history = Inr groups1"
    and p1: "\<forall>G \<in> set groups1. \<exists>first rest. ?F G first rest"
    by (elim exE conjE)
  from g1 out1 have "groups1 = [?G, ?H]" by (simp only: sum.inject)
  then have "?G \<in> set groups1" by (simp only: list.set insertI1)
  with p1 have "\<exists>first rest. ?F ?G first rest" by (rule bspec)
  then obtain first1 rest1 where u1: "map unnumbered (data ?G) = first1 # rest1"
    and i1: "nameX (players first1) \<noteq> nameO (players first1)
             \<and> nameX (players first1) \<noteq> lit ''Draws'' \<and> nameO (players first1) \<noteq> lit ''Draws''
           \<longrightarrow> sum_list (map snd (stats ?G)) = length (data ?G)"
    by (elim exE conjE)
  have "map unnumbered (data ?G) = [?r1, ?r2]"
    by (simp add: unnumbered_def example_numbered_def example_game_def)
  with u1 have first1: "first1 = ?r1" by simp
  have names1: "nameX (players ?r1) = lit ''Ann''" "nameO (players ?r1) = lit ''Bo''"
    by (simp_all add: example_game_def)
  from i1 d have s1: "sum_list (map snd (stats ?G)) = length (data ?G)"
    unfolding first1 names1 by blast
  have n1: "nameX (players (unnumbered (data ?G ! 0))) = lit ''Ann''"
    "nameO (players (unnumbered (data ?G ! 0))) = lit ''Bo''" "length (data ?G) = 2"
    by (simp_all add: unnumbered_def example_numbered_def)
  from out1 n1 s1 have "groupGamesByPlayers ann_bo_history = Inr [?G, ?H]
          \<and> nameX (players (unnumbered (data ?G ! 0))) = lit ''Ann''
          \<and> nameO (players (unnumbered (data ?G ! 0))) = lit ''Bo''
          \<and> sum_list (map snd (stats ?G)) = length (data ?G)
          \<and> length (data ?G) = 2"
    by (intro conjI)
  then have part1: "\<exists>G H. groupGamesByPlayers ann_bo_history = Inr [G, H]
          \<and> nameX (players (unnumbered (data G ! 0))) = lit ''Ann''
          \<and> nameO (players (unnumbered (data G ! 0))) = lit ''Bo''
          \<and> sum_list (map snd (stats G)) = length (data G)
          \<and> length (data G) = 2"
    by (intro exI)

  let ?a1 = "example_game ''A'' ''A'' ''A wins'' x_wins_board 1700000003000"
  let ?a2 = "example_game ''A'' ''A'' ''Draw'' draw_board 1700000002000"
  let ?K = "\<lparr>title = lit ''A vs A'',
             data = [example_numbered ''A'' ''A'' ''A wins'' x_wins_board 1700000003000 ''Game 1'',
                     example_numbered ''A'' ''A'' ''Draw'' draw_board 1700000002000 ''Game 2''],
             stats = [(lit ''A'', 0), (lit ''Draws'', 1)]\<rparr>"
  have out2: "groupGamesByPlayers a_a_history = Inr [?K]" by (rule a_a_groups)
  from groupGamesByPlayers_stats_sum[of a_a_history]
  have "\<exists>groups. groupGamesByPlayers a_a_history = Inr groups
      \<and> (\<forall>G \<in> set groups. \<exists>first rest. ?F G first rest)"
    by (rule conjunct1)
  then obtain groups2 where g2: "groupGamesByPlayers a_a_history = Inr groups2"
    and p2: "\<forall>G \<in> set groups2. \<exists>first rest. ?F G first rest"
    by (elim exE conjE)
  from g2 out2 have "groups2 = [?K]" by (simp only: sum.inject)
  then have "?K \<in> set groups2" by (simp only: list.set insertI1)
  with p2 have "\<exists>first rest. ?F ?K first rest" by (rule bspec)
  then obtain first2 rest2 where u2: "map unnumbered (data ?K) = first2 # rest2"
    and i2: "nameX (players first2) = nameO (players first2)
             \<or> nameX (players first2) = lit ''Draws'' \<or> nameO (players first2) = lit ''Draws''
           \<longrightarrow> length (stats ?K) < 3
             \<and> sum_list (map snd (stats ?K))
                 + (if nameX (players first2) = nameO (players first2)
                       \<or> nameX (players first2) = lit ''Draws''
                    then length (filter x_win (first2 # rest2)) else 0)
                 + (if nameO (players first2) = lit ''Draws''
                    then length (filter o_win (first2 # rest2)) else 0)
               = length (data ?K)
             \<and> ((sum_list (map snd (stats ?K)) = length (data ?K))
                 = ((if nameX (players first2) = nameO (players first2)
                        \<or> nameX (players first2) = lit ''Draws''
                     then length (filter x_win (first2 # rest2)) else 0)
                    + (if nameO (players first2) = lit ''Draws''
                       then length (filter o_win (first2 # rest2)) else 0) = 0))"
    by (elim exE conjE)
  have "map unnumbered (data ?K) = [?a1, ?a2]"
    by (simp add: unnumbered_def example_numbered_def example_game_def)
  with u2 have first2: "first2 = ?a1" and rest2: "rest2 = [?a2]" by simp_all
  have same: "nameX (players ?a1) = nameO (players ?a1)" by (simp add: example_game_def)
  have nd: "nameO (players ?a1) \<noteq> lit ''Draws''" by (simp add: example_game_def lit_def)
  have xw: "length (filter x_win [?a1, ?a2]) = 1"
    by (simp add: x_win_def example_game_def lit_def)
  from same have h: "nameX (players ?a1) = nameO (players ?a1)
      \<or> nameX (players ?a1) = lit ''Draws'' \<or> nameO (players ?a1) = lit ''Draws''"
    by (rule disjI1)
  from i2[unfolded first2 rest2] h have "length (stats ?K) < 3
       \<and> sum_list (map snd (stats ?K))
           + (if nameX (players ?a1) = nameO (players ?a1) \<or> nameX (players ?a1) = lit ''Draws''
              then length (filter x_win [?a1, ?a2]) else 0)
           + (if nameO (players ?a1) = lit ''Draws''
              then length (filter o_win [?a1, ?a2]) else 0)
         = length (data ?K)
       \<and> ((sum_list (map snd (stats ?K)) = length (data ?K))
           = ((if nameX (players ?a1) = nameO (players ?a1) \<or> nameX (players ?a1) = lit ''Draws''
               then length (filter x_win [?a1, ?a2]) else 0)
              + (if nameO (players ?a1) = lit ''Draws''
                 then length (filter o_win [?a1, ?a2]) else 0) = 0))"
    by (rule mp)
  with same nd xw have s2: "length (stats ?K) < 3"
    "sum_list (map snd (stats ?K)) + 1 = length (data ?K)"
    "sum_list (map snd (stats ?K)) \<noteq> length (data ?K)"
    by simp_all
  have n2: "nameX (players (unnumbered (data ?K ! 0))) = nameO (players (unnumbered (data ?K ! 0)))"
    "length (data ?K) = 2"
    by (simp_all add: unnumbered_def example_numbered_def)
  from out2 n2 s2 have "groupGamesByPlayers a_a_history = Inr [?K]
          \<and> nameX (players (unnumbered (data ?K ! 0))) = nameO (players (unnumbered (data ?K ! 0)))
          \<and> length (stats ?K) < 3
          \<and> sum_list (map snd (stats ?K)) + 1 = length (data ?K)
          \<and> sum_list (map snd (stats ?K)) \<noteq> length (data ?K)
          \<and> length (data ?K) = 2"
    by (intro conjI)
  then have part2: "\<exists>G. groupGamesByPlayers a_a_history = Inr [G]
          \<and> nameX (players (unnumbered (data G ! 0))) = nameO (players (unnumbered (data G ! 0)))
          \<and> length (stats G) < 3
          \<and> sum_list (map snd (stats G)) + 1 = length (data G)
          \<and> sum_list (map snd (stats G)) \<noteq> length (data G)
          \<and> length (data G) = 2"
    by (intro exI)
  from d part1 part2 show ?thesis by (intro conjI) (elim conjE, assumption)+
qed

section \<open>Properties of renaming\<close>

lemma groupGamesByPlayers_returns: "\<exists>groups. groupGamesByPlayers gs = Inr groups"
  using groups_props[of gs] by blast

lemma sep_nonempty: "sep \<noteq> []"
  by (simp add: sep_def lit_def)

lemma title_nonempty:
  assumes "groupGamesByPlayers gs = Inr groups" and "G \<in> set groups"
  shows "title G \<noteq> []"
proof -
  from groups_props[of gs] assms(1)
  have "map title groups = first_seen [] (map pairing_key gs)" by auto
  then have "set (map title groups) = set (first_seen [] (map pairing_key gs))" by simp
  with assms(2) have "title G \<in> pairing_key ` set gs" by (auto simp: first_seen_set)
  then show ?thesis using sep_nonempty by (auto simp: pairing_key_def)
qed

lemma at_split_cases:
  "at ps 0 = (case ps of [] \<Rightarrow> None | x # _ \<Rightarrow> Some x)"
  "at ps 1 = (case ps of x # y # _ \<Rightarrow> Some y | _ \<Rightarrow> None)"
  by (auto split: list.splits)

lemma handleSaveEditTitle_cases:
  assumes "groupGamesByPlayers (games st) = Inr groups"
  shows "handleSaveEditTitle w old st =
     (if trim (editedTitleText st) = [] then (Some EmptyTitleError, st)
      else if (\<exists>G \<in> set groups. title G = trim (editedTitleText st) \<and> title G \<noteq> old)
      then (Some DuplicateTitleError, st)
      else (case split (trim (editedTitleText st)) sep of
              xn # on # _ \<Rightarrow>
                if xn = [] \<or> on = [] then (Some MalformedTitleError, st)
                else if w
                then (None, st\<lparr>games := updatedGames (at (split old sep) 0) (at (split old sep) 1)
                                          xn on (games st),
                               editingTitle := None, editedTitleText := [],
                               storage := Some (updatedGames (at (split old sep) 0)
                                          (at (split old sep) 1) xn on (games st))\<rparr>)
                else (Some IOError, st)
            | _ \<Rightarrow> (Some MalformedTitleError, st)))"
  unfolding handleSaveEditTitle_def Let_def assms sum.case list_ex_iff
  by (auto simp: at_split_cases split: list.splits)





text \<open>
  C6. The rename fails with \<open>EmptyTitleError\<close> exactly when the new title is empty
  after trimming, and with \<open>DuplicateTitleError\<close> exactly when the trimmed new title is
  the title of a group of the current games and differs from \<open>oldTitle\<close>. Whenever the
  rename fails, the state of the screen, its games and the stored games included, is
  the state before the call.
\<close>

theorem handleSaveEditTitle_validation:
  "(fst (handleSaveEditTitle w old st) = Some EmptyTitleError
      \<longleftrightarrow> trim (editedTitleText st) = [])
   \<and> (fst (handleSaveEditTitle w old st) = Some DuplicateTitleError
      \<longleftrightarrow> (\<exists>groups. groupGamesByPlayers (games st) = Inr groups
             \<and> (\<exists>G \<in> set groups. title G = trim (editedTitleText st) \<and> title G \<noteq> old)))
   \<and> (fst (handleSaveEditTitle w old st) \<noteq> None
      \<longrightarrow> snd (handleSaveEditTitle w old st) = st)"
proof -
  obtain groups where g: "groupGamesByPlayers (games st) = Inr groups"
    using groupGamesByPlayers_returns by blast
  note c = handleSaveEditTitle_cases[OF g, of w old]
  let ?tn = "trim (editedTitleText st)"
  have ne: "?tn \<noteq> []" if "\<exists>G \<in> set groups. title G = ?tn \<and> title G \<noteq> old"
    using that title_nonempty[OF g] by auto
  have e: "fst (handleSaveEditTitle w old st) = Some EmptyTitleError \<longleftrightarrow> ?tn = []"
    unfolding c by (auto split: list.splits)
  have d: "fst (handleSaveEditTitle w old st) = Some DuplicateTitleError
      \<longleftrightarrow> (\<exists>G \<in> set groups. title G = ?tn \<and> title G \<noteq> old)"
    unfolding c using ne by (auto split: list.splits)
  have n: "fst (handleSaveEditTitle w old st) \<noteq> None
      \<longrightarrow> snd (handleSaveEditTitle w old st) = st"
    unfolding c by (auto split: list.splits)
  from d g have d': "fst (handleSaveEditTitle w old st) = Some DuplicateTitleError
      \<longleftrightarrow> (\<exists>groups. groupGamesByPlayers (games st) = Inr groups
             \<and> (\<exists>G \<in> set groups. title G = ?tn \<and> title G \<noteq> old))"
    by auto
  from e d' n show ?thesis by blast
qed

lemmas rename_simps = handleSaveEditTitle_def updatedGames_def rename_matches_def
  example_state_def ann_bo_history_def split_def


text \<open>
  C4 fails on the code. The title \<open>a vs b vs c\<close> splits into three parts, not two, yet
  the rename is accepted: only the first two parts are looked at, the third is dropped,
  and the games of Ann and Bo become games of \<open>a\<close> and \<open>b\<close>.
\<close>

theorem handleSaveEditTitle_accepts_three_parts:
  "split (lit ''a vs b vs c'') sep = [lit ''a'', lit ''b'', lit ''c'']
   \<and> handleSaveEditTitle True (lit ''Ann vs Bo'') (example_state (lit ''a vs b vs c''))
   = (None,
      \<lparr>games = [example_game ''a'' ''b'' ''Ann wins'' x_wins_board 1700000003000,
                example_game ''a'' ''b'' ''Draw'' draw_board 1700000002000,
                example_game ''Bo'' ''Ann'' ''Bo wins'' x_wins_board 1700000001000],
       editingTitle = None, editedTitleText = [],
       storage = Some [example_game ''a'' ''b'' ''Ann wins'' x_wins_board 1700000003000,
                example_game ''a'' ''b'' ''Draw'' draw_board 1700000002000,
                example_game ''Bo'' ''Ann'' ''Bo wins'' x_wins_board 1700000001000]\<rparr>)"
  by (simp add: rename_simps eval_simps)

text \<open>A title without the separator is refused, and the state is kept.\<close>

lemma malformed_example:
  "handleSaveEditTitle True (lit ''Ann vs Bo'') (example_state (lit ''AnnBo''))
   = (Some MalformedTitleError, example_state (lit ''AnnBo''))"
  by (simp add: rename_simps eval_simps)



text \<open>
  The theorem at the example history: an empty text is refused as empty; renaming
  \<open>Ann vs Bo\<close> to the title of the other group is refused as a duplicate, and the state
  is the one before the call.
\<close>

theorem handleSaveEditTitle_validation_witness:
  "fst (handleSaveEditTitle True (lit ''Ann vs Bo'') (example_state (lit ''  ''))) = Some EmptyTitleError
   \<and> fst (handleSaveEditTitle True (lit ''Ann vs Bo'') (example_state (lit ''Bo vs Ann'')))
       = Some DuplicateTitleError
   \<and> snd (handleSaveEditTitle True (lit ''Ann vs Bo'') (example_state (lit ''Bo vs Ann'')))
       = example_state (lit ''Bo vs Ann'')"
proof -
  let ?old = "lit ''Ann vs Bo''"
  let ?G = "\<lparr>title = lit ''Ann vs Bo'',
             data = [example_numbered ''Ann'' ''Bo'' ''Ann wins'' x_wins_board 1700000003000 ''Game 1'',
                     example_numbered ''Ann'' ''Bo'' ''Draw'' draw_board 1700000002000 ''Game 2''],
             stats = [(lit ''Ann'', 1), (lit ''Bo'', 0), (lit ''Draws'', 1)]\<rparr>"
  let ?H = "\<lparr>title = lit ''Bo vs Ann'',
             data = [example_numbered ''Bo'' ''Ann'' ''Bo wins'' x_wins_board 1700000001000 ''Game 1''],
             stats = [(lit ''Bo'', 1), (lit ''Ann'', 0), (lit ''Draws'', 0)]\<rparr>"
  have "trim (editedTitleText (example_state (lit ''  ''))) = []"
    by (simp add: example_state_def lit_def trim_def is_ws_def)
  with handleSaveEditTitle_validation[of True ?old "example_state (lit ''  '')"]
  have e: "fst (handleSaveEditTitle True ?old (example_state (lit ''  ''))) = Some EmptyTitleError"
    by blast
  let ?st = "example_state (lit ''Bo vs Ann'')"
  have tn: "trim (editedTitleText ?st) = lit ''Bo vs Ann''"
    by (simp add: example_state_def lit_def trim_def is_ws_def)
  have "groupGamesByPlayers (games ?st) = Inr [?G, ?H]"
    by (simp add: example_state_def ann_bo_groups)
  moreover have "?H \<in> set [?G, ?H]" by simp
  moreover have "title ?H = trim (editedTitleText ?st) \<and> title ?H \<noteq> ?old"
    by (simp add: tn) (simp add: lit_def)
  ultimately have "\<exists>groups. groupGamesByPlayers (games ?st) = Inr groups
             \<and> (\<exists>G \<in> set groups. title G = trim (editedTitleText ?st) \<and> title G \<noteq> ?old)"
    by blast
  with handleSaveEditTitle_validation[of True ?old ?st]
  have d: "fst (handleSaveEditTitle True ?old ?st) = Some DuplicateTitleError" by blast
  then have "fst (handleSaveEditTitle True ?old ?st) \<noteq> None" by simp
  with handleSaveEditTitle_validation[of True ?old ?st]
  have n: "snd (handleSaveEditTitle True ?old ?st) = ?st" by blast
  from e d n show ?thesis by (intro conjI)
qed

text \<open>
  What the format test of \<open>handleSaveEditTitle\<close> accepts once the first two tests have
  passed: a trimmed title whose split has at least two parts, the first two non-empty.
  Further parts are not looked at.
\<close>

lemma handleSaveEditTitle_malformed_iff:
  assumes "groupGamesByPlayers (games st) = Inr groups"
    and "trim (editedTitleText st) \<noteq> []"
    and "\<not> (\<exists>G \<in> set groups. title G = trim (editedTitleText st) \<and> title G \<noteq> old)"
  shows "fst (handleSaveEditTitle w old st) = Some MalformedTitleError
     \<longleftrightarrow> \<not> (\<exists>xn on more. split (trim (editedTitleText st)) sep = xn # on # more
                \<and> xn \<noteq> [] \<and> on \<noteq> [])"
  unfolding handleSaveEditTitle_cases[OF assms(1)] using assms(2,3)
  by (auto split: list.splits)

section \<open>Properties of deleting\<close>

text \<open>
  C7. A successful \<open>handleDeleteGame\<close> keeps exactly the records whose timestamp differs
  from the given one, in their order, and stores them: the remaining games are a
  subsequence of the games before, none of them has the given timestamp, and for every
  other timestamp the records carrying it are the same as before. When exactly one
  record has the given timestamp, one record fewer remains. When the write to the store
  is rejected, nothing changes.
\<close>

theorem handleDeleteGame_removes_timestamp:
  "fst (handleDeleteGame True ts st) = None
   \<and> games (snd (handleDeleteGame True ts st)) = filter (\<lambda>g. timestamp g \<noteq> ts) (games st)
   \<and> storage (snd (handleDeleteGame True ts st)) = Some (games (snd (handleDeleteGame True ts st)))
   \<and> subseq (games (snd (handleDeleteGame True ts st))) (games st)
   \<and> (\<forall>g \<in> set (games (snd (handleDeleteGame True ts st))). timestamp g \<noteq> ts)
   \<and> (\<forall>t. t \<noteq> ts \<longrightarrow>
          filter (\<lambda>g. timestamp g = t) (games (snd (handleDeleteGame True ts st)))
          = filter (\<lambda>g. timestamp g = t) (games st))
   \<and> (length (filter (\<lambda>g. timestamp g = ts) (games st)) = 1 \<longrightarrow>
          length (games (snd (handleDeleteGame True ts st))) + 1 = length (games st))
   \<and> handleDeleteGame False ts st = (Some IOError, st)"
proof -
  let ?st' = "snd (handleDeleteGame True ts st)"
  have w: "handleDeleteGame False ts st = (Some IOError, st)"
    by (simp add: handleDeleteGame_def Let_def)
  have f: "fst (handleDeleteGame True ts st) = None" by (simp add: handleDeleteGame_def Let_def)
  have g: "games ?st' = filter (\<lambda>g. timestamp g \<noteq> ts) (games st)"
    by (simp add: handleDeleteGame_def Let_def)
  have s: "storage ?st' = Some (games ?st')" by (simp add: handleDeleteGame_def Let_def)
  have q: "subseq (games ?st') (games st)" unfolding g by (rule subseq_filter_left)
  have n: "\<forall>g \<in> set (games ?st'). timestamp g \<noteq> ts" unfolding g by simp
  have o: "\<forall>t. t \<noteq> ts \<longrightarrow>
          filter (\<lambda>g. timestamp g = t) (games ?st') = filter (\<lambda>g. timestamp g = t) (games st)"
    unfolding g by (auto intro: filter_cong)
  have "length (filter (\<lambda>g. timestamp g \<noteq> ts) (games st))
        + length (filter (\<lambda>g. timestamp g = ts) (games st)) = length (games st)"
    using sum_length_filter_compl[of "\<lambda>g. timestamp g = ts" "games st"] by simp
  then have c: "length (filter (\<lambda>g. timestamp g = ts) (games st)) = 1 \<longrightarrow>
          length (games ?st') + 1 = length (games st)"
    unfolding g by simp
  from f g s q n o c w show ?thesis by (intro conjI)
qed

text \<open>
  The theorem at the example history: deleting the game with the timestamp of the second
  record leaves the first and the third, in this order.
\<close>

theorem handleDeleteGame_removes_timestamp_witness:
  "length (filter (\<lambda>g. timestamp g = 1700000002000) (games (example_state []))) = 1
   \<and> length (games (snd (handleDeleteGame True 1700000002000 (example_state [])))) + 1
       = length (games (example_state []))
   \<and> games (snd (handleDeleteGame True 1700000002000 (example_state [])))
       = [example_game ''Ann'' ''Bo'' ''Ann wins'' x_wins_board 1700000003000,
          example_game ''Bo'' ''Ann'' ''Bo wins'' x_wins_board 1700000001000]"
proof -
  let ?st = "example_state []"
  note inst = handleDeleteGame_removes_timestamp[of 1700000002000 ?st]
  have one: "length (filter (\<lambda>g. timestamp g = 1700000002000) (games ?st)) = 1"
    by (simp add: example_state_def ann_bo_history_def example_game_def)
  from inst have "length (filter (\<lambda>g. timestamp g = 1700000002000) (games ?st)) = 1 \<longrightarrow>
          length (games (snd (handleDeleteGame True 1700000002000 ?st))) + 1 = length (games ?st)"
    by (elim conjE)
  with one have l: "length (games (snd (handleDeleteGame True 1700000002000 ?st))) + 1
       = length (games ?st)" by (rule rev_mp)
  from inst have "games (snd (handleDeleteGame True 1700000002000 ?st))
      = filter (\<lambda>g. timestamp g \<noteq> 1700000002000) (games ?st)"
    by (elim conjE)
  then have g: "games (snd (handleDeleteGame True 1700000002000 ?st))
       = [example_game ''Ann'' ''Bo'' ''Ann wins'' x_wins_board 1700000003000,
          example_game ''Bo'' ''Ann'' ''Bo wins'' x_wins_board 1700000001000]"
    by (simp add: example_state_def ann_bo_history_def example_game_def)
  from one l g show ?thesis by (intro conjI)
qed

section \<open>Properties of saving a game\<close>

text \<open>
  The first version of the application stores trimmed names: the names of the stored
  record are the trimmed arguments, and a trimmed name neither starts nor ends with
  white space.
\<close>

lemma saveGame_stores_trimmed:
  "\<exists>rest. saveGame True playerX playerO now boardState res store
      = (None, Some (\<lparr>board = boardState, result = res,
                       players = \<lparr>nameX = trim playerX, nameO = trim playerO\<rparr>,
                       timestamp = now\<rparr> # rest))"
  by (simp add: saveGame_def Let_def)

lemma startGame_passes_trimmed:
  "startGame playerX playerO firstPlayer = Inr (x, y, p) \<Longrightarrow> x = trim playerX \<and> y = trim playerO"
  by (auto simp: startGame_def Let_def split: if_splits option.splits)

text \<open>
  C8 fails in the second version of the application. The names \<open>Ann\<close> with a space on
  each side and \<open>Bo\<close> pass the test of \<open>startGame\<close>, reach the game screen as typed, and
  are stored as typed by \<open>saveGame\<close>: the stored X name is not the trimmed name.
\<close>

theorem saveGame_index_stores_untrimmed:
  "startGame_index (lit '' Ann '') (lit ''Bo'') = Inr (lit '' Ann '', lit ''Bo'')
   \<and> saveGame_index True (lit '' Ann '') (lit ''Bo'') 1700000003000 x_wins_board
        (lit '' Ann  wins'') None
      = (None, Some [\<lparr>board = x_wins_board, result = lit '' Ann  wins'',
                       players = \<lparr>nameX = lit '' Ann '', nameO = lit ''Bo''\<rparr>,
                       timestamp = 1700000003000\<rparr>])
   \<and> trim (lit '' Ann '') = lit ''Ann''
   \<and> lit '' Ann '' \<noteq> lit ''Ann''"
  by (simp add: startGame_index_def saveGame_index_def lit_def trim_def is_ws_def)

end
